theory Spec2Isabelle
  imports Complex_Main "HOL-Library.AList" "HOL-Library.Sublist"
begin

section \<open>Values exchanged with the operator\<close>

text \<open>
  The interactive backend (\<^verbatim>\<open>app_interactive.py\<close>) talks to a remote operator over a
  WebSocket. Every inbound message is an envelope \<^verbatim>\<open>{"type": ..., "data": {...}}\<close> whose
  \<^verbatim>\<open>data\<close> is a \<^verbatim>\<open>Dict[str, Any]\<close>: the values in it are whatever JSON the operator sent.
  A character of a \<^typ>\<open>string\<close> stands for one character of a Python \<^verbatim>\<open>str\<close>; a
  dictionary is an association list in insertion order, read with \<^const>\<open>map_of\<close>.
\<close>

datatype json =
    JNull
  | JBool bool
  | JInt int
  | JFloat real
  | JStr string
  | JList "json list"
  | JDict "(string \<times> json) list"

type_synonym pydict = "(string \<times> json) list"

text \<open>\<^verbatim>\<open>d.get(key, default)\<close> and \<^verbatim>\<open>d.get(key)\<close> (whose default is \<^verbatim>\<open>None\<close>).\<close>

definition dict_get :: "pydict \<Rightarrow> string \<Rightarrow> json \<Rightarrow> json" where
  "dict_get d k dflt = (case map_of d k of Some v \<Rightarrow> v | None \<Rightarrow> dflt)"

text \<open>Python's truth value of an object, as \<^verbatim>\<open>if feedback:\<close> tests it.\<close>

fun truthy :: "json \<Rightarrow> bool" where
  "truthy JNull = False"
| "truthy (JBool b) = b"
| "truthy (JInt i) = (i \<noteq> 0)"
| "truthy (JFloat r) = (r \<noteq> 0)"
| "truthy (JStr s) = (s \<noteq> [])"
| "truthy (JList xs) = (xs \<noteq> [])"
| "truthy (JDict kvs) = (kvs \<noteq> [])"

text \<open>
  Exceptions are values. \<^verbatim>\<open>asyncio.CancelledError\<close> derives from \<^verbatim>\<open>BaseException\<close>, so an
  \<^verbatim>\<open>except Exception\<close> clause does not catch it; every other error here is an
  \<^verbatim>\<open>Exception\<close>. \<open>Failure\<close> is any exception raised by an external collaborator
  (a language-model call, a report writer).
\<close>

datatype error =
    HTTPException nat
  | CancelledError
  | UnboundLocalError string
  | KeyError string
  | IndexError
  | Failure string

fun is_Exception :: "error \<Rightarrow> bool" where
  "is_Exception CancelledError = False"
| "is_Exception _ = True"

datatype UserResponseType = ANALYST_COUNT | REPORT_APPROVAL | FEEDBACK

text \<open>
  The text an f-string makes of a member, which is what the key of a pending response is
  built from. \<^verbatim>\<open>UserResponseType\<close> is a \<^verbatim>\<open>(str, Enum)\<close>: up to Python 3.10 the f-string
  gives the member's value, as below; from Python 3.11 on it gives the member's qualified
  name. Either way it is one fixed text per member, different for different members, and
  both \<^verbatim>\<open>wait_for_response\<close> and the endpoint build the key in the same way.
\<close>

fun type_str :: "UserResponseType \<Rightarrow> string" where
  "type_str ANALYST_COUNT = ''analyst_count''"
| "type_str REPORT_APPROVAL = ''report_approval''"
| "type_str FEEDBACK = ''feedback''"


section \<open>The registry of connections and pending responses\<close>

text \<open>
  \<^verbatim>\<open>app_interactive.py\<close> keeps two process-wide dictionaries: \<^verbatim>\<open>active_connections\<close>
  (session id to WebSocket) and \<^verbatim>\<open>pending_responses\<close> (key to \<^verbatim>\<open>asyncio.Future\<close>).
  A future is an object shared between the dictionary and the coroutine that awaits it,
  so futures live in a store, addressed by a number; \<open>next_future\<close> is the address the
  next \<^verbatim>\<open>asyncio.Future()\<close> gets. The code runs on one event loop: what stands between two
  \<^verbatim>\<open>await\<close>s is one atomic step, and each step is a function on the registry.
\<close>

datatype fut_state = FutPending | FutResult pydict | FutCancelled

record registry =
  active_connections :: "(string \<times> nat) list"
  pending_responses :: "(string \<times> nat) list"
  futures :: "nat \<Rightarrow> fut_state option"
  next_future :: nat

definition empty_registry :: registry where
  "empty_registry =
     \<lparr>active_connections = [], pending_responses = [], futures = (\<lambda>_. None), next_future = 0\<rparr>"

text \<open>\<^verbatim>\<open>f"{session_id}_{response_type}"\<close>\<close>

definition response_key :: "string \<Rightarrow> UserResponseType \<Rightarrow> string" where
  "response_key session_id response_type = session_id @ ''_'' @ type_str response_type"

text \<open>\<^verbatim>\<open>future.done()\<close>, \<^verbatim>\<open>future.set_result(data)\<close> and \<^verbatim>\<open>future.cancel()\<close>.\<close>

definition fut_done :: "registry \<Rightarrow> nat \<Rightarrow> bool" where
  "fut_done r f = (futures r f \<noteq> Some FutPending)"

definition set_result :: "nat \<Rightarrow> pydict \<Rightarrow> registry \<Rightarrow> registry" where
  "set_result f d r = r\<lparr>futures := (futures r)(f \<mapsto> FutResult d)\<rparr>"

definition cancel :: "nat \<Rightarrow> registry \<Rightarrow> registry" where
  "cancel f r = r\<lparr>futures := (futures r)(f \<mapsto> FutCancelled)\<rparr>"

text \<open>
  \<^verbatim>\<open>wait_for_response\<close>, up to its \<^verbatim>\<open>await\<close>: a new future is created and stored under
  the key by plain assignment, \<^verbatim>\<open>pending_responses[response_key] = future\<close>. The step
  returns the future the caller goes on to await.
\<close>

definition wait_begin :: "string \<Rightarrow> UserResponseType \<Rightarrow> registry \<Rightarrow> nat \<times> registry" where
  "wait_begin session_id response_type r =
     (let future = next_future r;
          key = response_key session_id response_type
      in (future,
          r\<lparr>futures := (futures r)(future \<mapsto> FutPending),
            next_future := Suc future,
            pending_responses := AList.update key future (pending_responses r)\<rparr>))"

text \<open>
  When the 300 seconds of \<^verbatim>\<open>asyncio.wait_for\<close> pass, it cancels the future it waits for
  and raises \<^verbatim>\<open>TimeoutError\<close>.
\<close>

definition wait_timeout :: "nat \<Rightarrow> registry \<Rightarrow> registry" where
  "wait_timeout future r = (if fut_done r future then r else cancel future r)"

text \<open>The \<^verbatim>\<open>finally\<close> clause: \<^verbatim>\<open>pending_responses.pop(response_key, None)\<close>.\<close>

definition wait_finally :: "string \<Rightarrow> UserResponseType \<Rightarrow> registry \<Rightarrow> registry" where
  "wait_finally session_id response_type r =
     r\<lparr>pending_responses :=
         AList.delete (response_key session_id response_type) (pending_responses r)\<rparr>"

text \<open>
  \<^verbatim>\<open>websocket_endpoint\<close>: accepting a connection, handling one inbound message (already
  validated as a \<^verbatim>\<open>UserResponse\<close>), and the handler of \<^verbatim>\<open>WebSocketDisconnect\<close>.
\<close>

definition ws_accept :: "string \<Rightarrow> nat \<Rightarrow> registry \<Rightarrow> registry" where
  "ws_accept session_id websocket r =
     r\<lparr>active_connections := AList.update session_id websocket (active_connections r)\<rparr>"

definition ws_receive :: "string \<Rightarrow> UserResponseType \<Rightarrow> pydict \<Rightarrow> registry \<Rightarrow> registry" where
  "ws_receive session_id response_type data r =
     (case map_of (pending_responses r) (response_key session_id response_type) of
        None \<Rightarrow> r
      | Some future \<Rightarrow> if fut_done r future then r else set_result future data r)"

text \<open>
  The loop \<^verbatim>\<open>for key in list(pending_responses.keys())\<close> of the disconnect handler. The
  keys are a snapshot; a key of the snapshot is still in the dictionary when its turn
  comes (nothing else runs in between, and a dictionary holds a key once), so the
  \<open>None\<close> branch of the \<^verbatim>\<open>pop\<close> is never taken from a dictionary.
\<close>

fun cancel_keys :: "string \<Rightarrow> string list \<Rightarrow> registry \<Rightarrow> registry" where
  "cancel_keys session_id [] r = r"
| "cancel_keys session_id (key # keys) r =
     cancel_keys session_id keys
       (if prefix session_id key then
          (case map_of (pending_responses r) key of
             None \<Rightarrow> r
           | Some future \<Rightarrow>
               (let r' = r\<lparr>pending_responses := AList.delete key (pending_responses r)\<rparr>
                in if fut_done r' future then r' else cancel future r'))
        else r)"

definition ws_disconnect :: "string \<Rightarrow> registry \<Rightarrow> registry" where
  "ws_disconnect session_id r =
     (let r' = r\<lparr>active_connections := AList.delete session_id (active_connections r)\<rparr>
      in cancel_keys session_id (map fst (pending_responses r')) r')"


section \<open>The data model of a research run\<close>

text \<open>The classes of \<^verbatim>\<open>autogen_storm/models.py\<close>.\<close>

record Analyst =
  affiliation :: string
  name :: string
  role :: string
  description :: string

record InterviewResult =
  analyst :: Analyst
  interview_content :: string
  section_content :: string

text \<open>
  \<^verbatim>\<open>max_analysts\<close> is declared \<^verbatim>\<open>int\<close>, but the interactive backend assigns to it
  whatever the operator's reply holds, and the feedback text likewise comes out of a reply;
  both fields carry a JSON value.
\<close>

record ResearchTask =
  topic :: string
  max_analysts :: json
  max_interview_turns :: int
  parallel_interviews :: bool
  user_feedback :: "json option"

text \<open>
  The parts of a report, \<^verbatim>\<open>Dict[str, str]\<close> with the keys \<^verbatim>\<open>main_content\<close>,
  \<^verbatim>\<open>introduction\<close> and \<^verbatim>\<open>conclusion\<close>.
\<close>

type_synonym report_parts = "(string \<times> string) list"

record ResearchResult =
  res_topic :: string
  analysts :: "Analyst list"
  interviews :: "InterviewResult list"
  introduction :: string
  main_content :: string
  conclusion :: string
  final_report :: string

section \<open>External collaborators\<close>

text \<open>
  Everything that calls a language model is outside the scope of the specification and
  enters as a parameter: a reply is a function of the request, or an exception. The
  fields are named after the methods of \<^verbatim>\<open>StormWorkflow\<close> they stand for; a
  \<open>team_run\<close> is one \<^verbatim>\<open>await team.run(task=...)\<close> and yields the contents of the
  conversation's messages. \<open>report_writers\<close> stands for the three writer calls that
  \<^verbatim>\<open>_write_report\<close> gathers (main content, introduction, conclusion) and
  \<open>assemble_final_report\<close> for the text assembly of the same name.
\<close>

record llm =
  generate_analysts :: "ResearchTask \<Rightarrow> error + Analyst list"
  generate_analysts_with_diverse_tools :: "ResearchTask \<Rightarrow> error + Analyst list"
  generate_additional_analyst_with_feedback ::
    "ResearchTask \<Rightarrow> json \<Rightarrow> Analyst list \<Rightarrow> error + Analyst"
  interview_team_run :: "Analyst \<Rightarrow> int \<Rightarrow> error + string list"
  section_team_run :: "Analyst \<Rightarrow> string \<Rightarrow> error + string list"
  feedback_interview_team_run :: "Analyst \<Rightarrow> json \<Rightarrow> int \<Rightarrow> error + string list"
  feedback_section_team_run :: "Analyst \<Rightarrow> json \<Rightarrow> string \<Rightarrow> error + string list"
  report_writers :: "string \<Rightarrow> string \<Rightarrow> error + string \<times> string \<times> string"
  feedback_report_writers :: "json \<Rightarrow> string \<Rightarrow> string \<Rightarrow> error + string \<times> string \<times> string"
  assemble_final_report :: "report_parts \<Rightarrow> string"

section \<open>The interview fan-out stage\<close>

text \<open>\<^verbatim>\<open>sep.join(xs)\<close>\<close>

fun str_join :: "string \<Rightarrow> string list \<Rightarrow> string" where
  "str_join sep [] = []"
| "str_join sep [x] = x"
| "str_join sep (x # y # ys) = x @ sep @ str_join sep (y # ys)"

text \<open>
  What one interview does to the outside world: the two team runs it awaits, in the
  order in which it awaits them. (Tracing is off unless it is initialised with
  credentials, and \<^verbatim>\<open>log_event\<close> then does nothing.)
\<close>

datatype effect =
    InterviewRun Analyst int
  | SectionRun Analyst string
  | FeedbackInterviewRun Analyst json int
  | FeedbackSectionRun Analyst json string

text \<open>
  \<^verbatim>\<open>_conduct_single_interview\<close>: run the interview, join the messages with newlines, run
  the section writer on the transcript, take the last message as the section. Either run
  may raise, and \<^verbatim>\<open>messages[-1]\<close> raises \<^verbatim>\<open>IndexError\<close> on an empty list.
\<close>

definition conduct_single_interview ::
  "llm \<Rightarrow> Analyst \<Rightarrow> int \<Rightarrow> effect list \<times> (error + InterviewResult)" where
  "conduct_single_interview m a max_turns =
     (case interview_team_run m a max_turns of
        Inl e \<Rightarrow> ([InterviewRun a max_turns], Inl e)
      | Inr messages \<Rightarrow>
          (let content = str_join [CHR 0x0A] messages;
               effects = [InterviewRun a max_turns, SectionRun a content]
           in case section_team_run m a content of
                Inl e \<Rightarrow> (effects, Inl e)
              | Inr section_messages \<Rightarrow>
                  (if section_messages = [] then (effects, Inl IndexError)
                   else (effects,
                         Inr \<lparr>analyst = a, interview_content = content,
                              section_content = last section_messages\<rparr>))))"

text \<open>
  \<^verbatim>\<open>await asyncio.gather(*tasks)\<close> with the default \<^verbatim>\<open>return_exceptions=False\<close>: when
  every task succeeds, the results in the order of the arguments; otherwise the first
  exception to be raised propagates to the caller (the other tasks are not cancelled).
  \<open>finish i\<close> is the time at which task \<open>i\<close> ends, so the first exception is that of the
  failed task that ends first.
\<close>

definition failed_units :: "('e + 'r) list \<Rightarrow> nat list" where
  "failed_units outs = filter (\<lambda>i. isl (outs ! i)) [0..<length outs]"

fun earliest :: "(nat \<Rightarrow> nat) \<Rightarrow> nat \<Rightarrow> nat list \<Rightarrow> nat" where
  "earliest finish i [] = i"
| "earliest finish i (j # js) = earliest finish (if finish j < finish i then j else i) js"

definition gather :: "(nat \<Rightarrow> nat) \<Rightarrow> ('e + 'r) list \<Rightarrow> 'e + 'r list" where
  "gather finish outs =
     (case failed_units outs of
        [] \<Rightarrow> Inr (map projr outs)
      | i # js \<Rightarrow> Inl (projl (outs ! earliest finish i js)))"

text \<open>
  A trace of effects. Where the program runs tasks concurrently, the order in which
  their effects interleave is the event loop's, not the program's: such a block is kept
  as the list of each task's own effects.
\<close>

datatype 'e titem = Ev 'e | Concurrent "'e list list"

text \<open>
  The sequential branch of the stage: the \<^verbatim>\<open>for\<close> loop, with the list \<^verbatim>\<open>interviews\<close>
  it appends to (here \<open>done_list\<close>). An exception leaves the loop at once, and the units
  after the failing one never start.
\<close>

fun sequential_loop ::
  "('a \<Rightarrow> 'x list \<times> ('e + 'r)) \<Rightarrow> 'a list \<Rightarrow> 'r list \<Rightarrow> 'x list \<times> ('e + 'r list)" where
  "sequential_loop unit [] done_list = ([], Inr done_list)"
| "sequential_loop unit (a # rest) done_list =
     (case unit a of
        (effects, Inl e) \<Rightarrow> (effects, Inl e)
      | (effects, Inr interview_result) \<Rightarrow>
          (case sequential_loop unit rest (done_list @ [interview_result]) of
             (effects', res) \<Rightarrow> (effects @ effects', res)))"

text \<open>
  The stage itself. \<^verbatim>\<open>_conduct_interviews\<close>, \<^verbatim>\<open>_conduct_feedback_aware_interviews\<close> and
  the interview phase of \<^verbatim>\<open>run_interactive_research\<close> are three copies of the same
  code around different units: with \<^verbatim>\<open>parallel_interviews\<close>, one task per analyst and a
  \<^verbatim>\<open>gather\<close> whose results extend the empty list; otherwise the loop.
\<close>

definition fan_out ::
  "('a \<Rightarrow> 'x list \<times> ('e + 'r)) \<Rightarrow> (nat \<Rightarrow> nat) \<Rightarrow> bool \<Rightarrow> 'a list
     \<Rightarrow> 'x titem list \<times> ('e + 'r list)" where
  "fan_out unit finish in_parallel xs =
     (if in_parallel then
        (let units = map unit xs
         in ([Concurrent (map fst units)], gather finish (map snd units)))
      else
        (case sequential_loop unit xs [] of
           (effects, res) \<Rightarrow> (map Ev effects, res)))"

text \<open>\<^verbatim>\<open>_conduct_interviews\<close> of \<^verbatim>\<open>workflow.py\<close>.\<close>

definition conduct_interviews ::
  "llm \<Rightarrow> (nat \<Rightarrow> nat) \<Rightarrow> Analyst list \<Rightarrow> ResearchTask
     \<Rightarrow> effect titem list \<times> (error + InterviewResult list)" where
  "conduct_interviews m finish analyst_list task =
     fan_out (\<lambda>a. conduct_single_interview m a (max_interview_turns task))
       finish (parallel_interviews task) analyst_list"

text \<open>
  The feedback-aware copies, \<^verbatim>\<open>_conduct_single_feedback_aware_interview\<close> and
  \<^verbatim>\<open>_conduct_feedback_aware_interviews\<close>: the same shape around the feedback-aware
  team runs.
\<close>

definition conduct_single_feedback_aware_interview ::
  "llm \<Rightarrow> Analyst \<Rightarrow> int \<Rightarrow> json \<Rightarrow> effect list \<times> (error + InterviewResult)" where
  "conduct_single_feedback_aware_interview m a max_turns feedback =
     (case feedback_interview_team_run m a feedback max_turns of
        Inl e \<Rightarrow> ([FeedbackInterviewRun a feedback max_turns], Inl e)
      | Inr messages \<Rightarrow>
          (let content = str_join [CHR 0x0A] messages;
               effects = [FeedbackInterviewRun a feedback max_turns,
                          FeedbackSectionRun a feedback content]
           in case feedback_section_team_run m a feedback content of
                Inl e \<Rightarrow> (effects, Inl e)
              | Inr section_messages \<Rightarrow>
                  (if section_messages = [] then (effects, Inl IndexError)
                   else (effects,
                         Inr \<lparr>analyst = a, interview_content = content,
                              section_content = last section_messages\<rparr>))))"

definition conduct_feedback_aware_interviews ::
  "llm \<Rightarrow> (nat \<Rightarrow> nat) \<Rightarrow> Analyst list \<Rightarrow> ResearchTask \<Rightarrow> json
     \<Rightarrow> effect titem list \<times> (error + InterviewResult list)" where
  "conduct_feedback_aware_interviews m finish analyst_list task feedback =
     fan_out (\<lambda>a. conduct_single_feedback_aware_interview m a (max_interview_turns task) feedback)
       finish (parallel_interviews task) analyst_list"


section \<open>Report writing and the state of a workflow object\<close>

text \<open>
  \<^verbatim>\<open>_write_report\<close> and \<^verbatim>\<open>_write_feedback_aware_report\<close>: the sections of all
  interviews are joined and handed to the three writers; the result is a dictionary with
  exactly the keys \<^verbatim>\<open>main_content\<close>, \<^verbatim>\<open>introduction\<close>, \<^verbatim>\<open>conclusion\<close>.
\<close>

definition section_sep :: string where
  "section_sep = [CHR 0x0A, CHR 0x0A] @ ''---'' @ [CHR 0x0A, CHR 0x0A]"

definition write_report :: "llm \<Rightarrow> string \<Rightarrow> InterviewResult list \<Rightarrow> error + report_parts" where
  "write_report m topic_str interview_list =
     (case report_writers m topic_str (str_join section_sep (map section_content interview_list)) of
        Inl e \<Rightarrow> Inl e
      | Inr (main, intro, concl) \<Rightarrow>
          Inr [(''main_content'', main), (''introduction'', intro), (''conclusion'', concl)])"

definition write_feedback_aware_report ::
  "llm \<Rightarrow> string \<Rightarrow> InterviewResult list \<Rightarrow> json \<Rightarrow> error + report_parts" where
  "write_feedback_aware_report m topic_str interview_list feedback =
     (case feedback_report_writers m feedback topic_str
             (str_join section_sep (map section_content interview_list)) of
        Inl e \<Rightarrow> Inl e
      | Inr (main, intro, concl) \<Rightarrow>
          Inr [(''main_content'', main), (''introduction'', intro), (''conclusion'', concl)])"

text \<open>
  The fields a \<^verbatim>\<open>StormWorkflow\<close> in interactive mode keeps between calls, as
  \<^verbatim>\<open>__init__\<close> sets them (\<^verbatim>\<open>current_task\<close> is never assigned again and is left out).
\<close>

record StormWorkflow =
  current_analysts :: "Analyst list"
  current_interviews :: "InterviewResult list"
  current_report_parts :: report_parts
  report_versions :: "report_parts list"

definition init_workflow :: StormWorkflow where
  "init_workflow =
     \<lparr>current_analysts = [], current_interviews = [], current_report_parts = [],
      report_versions = []\<rparr>"

text \<open>
  \<^verbatim>\<open>_rewrite_with_feedback\<close>: one more analyst is generated from the feedback, all
  analysts (the current ones and the new one) are interviewed again, a report is written
  from those interviews, and the object's \<^verbatim>\<open>current_analysts\<close> and
  \<^verbatim>\<open>current_interviews\<close> are replaced. The new list is a new object: a caller that still
  holds the old list sees no change in it.
\<close>

definition rewrite_with_feedback ::
  "llm \<Rightarrow> (nat \<Rightarrow> nat) \<Rightarrow> string \<Rightarrow> json \<Rightarrow> StormWorkflow
     \<Rightarrow> error + report_parts \<times> StormWorkflow" where
  "rewrite_with_feedback m finish topic_str feedback w =
     (let task_with_feedback =
            \<lparr>topic = topic_str, max_analysts = JInt 1, max_interview_turns = 3,
             parallel_interviews = True, user_feedback = Some feedback\<rparr>
      in case generate_additional_analyst_with_feedback m task_with_feedback feedback
                (current_analysts w) of
           Inl e \<Rightarrow> Inl e
         | Inr additional_analyst \<Rightarrow>
             (let all_analysts = current_analysts w @ [additional_analyst];
                  updated_task =
                    \<lparr>topic = topic_str, max_analysts = JInt (int (length all_analysts)),
                     max_interview_turns = 3, parallel_interviews = True,
                     user_feedback = Some feedback\<rparr>
              in case snd (conduct_feedback_aware_interviews m finish all_analysts
                             updated_task feedback) of
                   Inl e \<Rightarrow> Inl e
                 | Inr interview_list \<Rightarrow>
                     (case write_feedback_aware_report m topic_str interview_list feedback of
                        Inl e \<Rightarrow> Inl e
                      | Inr parts \<Rightarrow>
                          Inr (parts,
                               w\<lparr>current_analysts := all_analysts,
                                 current_interviews := interview_list\<rparr>))))"

section \<open>Asking the operator and waiting\<close>

text \<open>
  What happens while \<^verbatim>\<open>wait_for_response\<close> awaits its future, with time counted in
  seconds from the start of the wait: a matching message arrives, or the connection is
  torn down, or nothing happens at all. \<^verbatim>\<open>asyncio.wait_for(future, timeout=300.0)\<close> gives
  up after 300 seconds, so an event that comes later than that comes too late.
\<close>

datatype wait_event = Reply nat pydict | Disconnect nat | Silence

definition response_timeout :: nat where
  "response_timeout = 300"

definition timed_out :: "wait_event \<Rightarrow> bool" where
  "timed_out ev =
     (case ev of
        Reply t response \<Rightarrow> \<not> t < response_timeout
      | Disconnect t \<Rightarrow> \<not> t < response_timeout
      | Silence \<Rightarrow> True)"

text \<open>
  One call of \<^verbatim>\<open>wait_for_response\<close> on the registry, when nothing else touches its
  key while it waits. The future is created and stored; the event settles it (the
  endpoint delivers the reply, or handles the disconnect, or the timer of \<^verbatim>\<open>wait_for\<close>
  fires); the caller gets the future's result, a \<^verbatim>\<open>CancelledError\<close>, or, for the
  \<^verbatim>\<open>TimeoutError\<close>, an \<^verbatim>\<open>HTTPException\<close> with status 408; and the \<^verbatim>\<open>finally\<close> clause
  removes the key.
\<close>

definition wait_for_response_on ::
  "string \<Rightarrow> UserResponseType \<Rightarrow> wait_event \<Rightarrow> registry \<Rightarrow> (error + pydict) \<times> registry" where
  "wait_for_response_on session_id response_type ev r =
     (case wait_begin session_id response_type r of
        (future, r1) \<Rightarrow>
          (let r2 = (if timed_out ev then wait_timeout future r1
                     else (case ev of
                             Reply t response \<Rightarrow> ws_receive session_id response_type response r1
                           | Disconnect t \<Rightarrow> ws_disconnect session_id r1
                           | Silence \<Rightarrow> r1));
               outcome = (if timed_out ev then Inl (HTTPException 408)
                          else (case futures r2 future of
                                  Some (FutResult response) \<Rightarrow> Inr response
                                | _ \<Rightarrow> Inl CancelledError))
           in (outcome, wait_finally session_id response_type r2)))"

text \<open>
  What the caller of \<^verbatim>\<open>wait_for_response\<close> gets depends on the event only (lemma
  \<open>wait_for_response_on_outcome\<close> below); the workflows are written against this
  function of the event.
\<close>

fun wait_for_response :: "wait_event \<Rightarrow> error + pydict" where
  "wait_for_response (Reply t response) =
     (if t < response_timeout then Inr response else Inl (HTTPException 408))"
| "wait_for_response (Disconnect t) =
     (if t < response_timeout then Inl CancelledError else Inl (HTTPException 408))"
| "wait_for_response Silence = Inl (HTTPException 408)"

text \<open>
  The result of a computation that sends messages and may wait for the operator: a value,
  an exception, or \<open>Blocked\<close> when the script of operator events ends while the code is
  still waiting. The messages sent so far come with it.
\<close>

datatype 'a res = Ok 'a | Raise error | Blocked

definition exec_bind :: "'t list \<times> 'a res \<Rightarrow> ('a \<Rightarrow> 't list \<times> 'b res) \<Rightarrow> 't list \<times> 'b res" where
  "exec_bind x f =
     (case x of
        (tr, Ok a) \<Rightarrow> (case f a of (tr', r) \<Rightarrow> (tr @ tr', r))
      | (tr, Raise e) \<Rightarrow> (tr, Raise e)
      | (tr, Blocked) \<Rightarrow> (tr, Blocked))"

definition res_of :: "error + 'a \<Rightarrow> 'a res" where
  "res_of x = (case x of Inl e \<Rightarrow> Raise e | Inr a \<Rightarrow> Ok a)"

definition lift :: "error + 'a \<Rightarrow> 't list \<times> 'a res" where
  "lift x = ([], res_of x)"

definition sends :: "'t list \<Rightarrow> 't list \<times> unit res" where
  "sends xs = (xs, Ok ())"

section \<open>The interactive backend\<close>

text \<open>
  The messages \<^verbatim>\<open>InteractiveStormWorkflow\<close> sends on its WebSocket. A progress message
  is named after the \<^verbatim>\<open>action\<close> of its \<^verbatim>\<open>agent_activity\<close> (or after what its text says,
  where it has none) and carries the values interpolated into it.
\<close>

datatype progress =
    Setup
  | GeneratingAnalysts json
  | AnalyzingTopic string
  | CreatingProfiles
  | AnalystsCreated "Analyst list"
  | PreparingQuestions
  | StartingInterviews nat
  | ParallelInterviewsStarted "Analyst list"
  | SequentialInterviewsStarted "Analyst list"
  | ConductingInterview Analyst "(nat \<times> nat) option"
  | InterviewCompleted Analyst
  | InterviewsCompleted nat bool
  | AnalyzingInterviews
  | StructuringReport
  | WritingReport
  | ReviewingReport
  | ReportApproved
  | CompleteRestart
  | FeedbackReflected json
  | FeedbackRewriting
  | DefaultRewriting
  | RewriteCompleted nat
  | ResearchCompleted

record preview =
  version :: nat
  introduction_preview :: string
  main_content_preview :: string
  conclusion_preview :: string
  total_length :: nat
  full_report :: report_parts

record result_data =
  result_topic :: string
  result_analysts :: "Analyst list"
  interview_count :: nat
  result_final_report :: string

datatype message =
    Progress progress
  | AnalystCountRequest json
  | ReportApprovalRequest string preview "string list"
  | Result result_data
  | Error error

text \<open>
  \<^verbatim>\<open>get_analyst_count\<close>: send the request, wait, and return the reply's \<^verbatim>\<open>count\<close> if it
  has one, else the default. Whatever the reply holds under \<^verbatim>\<open>count\<close> is returned as
  it is. The rest of the operator's script is returned with it.
\<close>

definition get_analyst_count ::
  "json \<Rightarrow> wait_event list \<Rightarrow> message titem list \<times> (json \<times> wait_event list) res" where
  "get_analyst_count default_count evs =
     ([Ev (AnalystCountRequest default_count)],
      case evs of
        [] \<Rightarrow> Blocked
      | ev # rest \<Rightarrow>
          (case wait_for_response ev of
             Inl e \<Rightarrow> Raise e
           | Inr response \<Rightarrow> Ok (dict_get response ''count'' default_count, rest)))"

text \<open>\<^verbatim>\<open>(current_report.get(key, '') or '')\<close> and the preview built from it.\<close>

definition part :: "report_parts \<Rightarrow> string \<Rightarrow> string" where
  "part r k = (case map_of r k of Some t \<Rightarrow> t | None \<Rightarrow> [])"

definition make_preview :: "nat \<Rightarrow> report_parts \<Rightarrow> preview" where
  "make_preview v r =
     \<lparr>version = v,
      introduction_preview = take 200 (part r ''introduction''),
      main_content_preview = take 300 (part r ''main_content''),
      conclusion_preview = take 200 (part r ''conclusion''),
      total_length =
        length (part r ''introduction'' @ part r ''main_content'' @ part r ''conclusion''),
      full_report = r\<rparr>"

text \<open>
  The local variables of \<^verbatim>\<open>get_report_approval\<close> and the workflow object it works on.
  \<^verbatim>\<open>new_report\<close> is a local of the function, not of the loop body: it has no value until
  a branch assigns it, and keeps its value from one iteration to the next.
\<close>

record approval_state =
  version_no :: nat
  current_report :: report_parts
  new_report :: "report_parts option"
  workflow :: StormWorkflow

datatype approval_step = Continue approval_state | Return report_parts | Raised error

definition approval_request :: "string \<Rightarrow> approval_state \<Rightarrow> message" where
  "approval_request topic_str st =
     ReportApprovalRequest topic_str (make_preview (version_no st) (current_report st))
       [''approve'', ''rewrite'', ''view_full'']"

text \<open>
  The end of the \<^verbatim>\<open>rewrite\<close> branch: \<^verbatim>\<open>current_report = new_report\<close> (which raises
  \<^verbatim>\<open>UnboundLocalError\<close> when no branch has ever assigned \<^verbatim>\<open>new_report\<close>),
  \<^verbatim>\<open>version += 1\<close>, a progress message with the new version, \<^verbatim>\<open>continue\<close>.
\<close>

definition finish_rewrite :: "message list \<Rightarrow> approval_state \<Rightarrow> message list \<times> approval_step" where
  "finish_rewrite msgs st =
     (case new_report st of
        None \<Rightarrow> (msgs, Raised (UnboundLocalError ''new_report''))
      | Some r \<Rightarrow>
          (msgs @ [Progress (RewriteCompleted (version_no st + 1))],
           Continue (st\<lparr>current_report := r, version_no := version_no st + 1\<rparr>)))"

text \<open>
  One iteration of the \<^verbatim>\<open>while True\<close> loop of \<^verbatim>\<open>get_report_approval\<close>, after the
  approval request has been sent: wait for the reply and act on its \<^verbatim>\<open>action\<close>.
\<close>

definition report_approval_step ::
  "llm \<Rightarrow> (nat \<Rightarrow> nat) \<Rightarrow> string \<Rightarrow> approval_state \<Rightarrow> wait_event
     \<Rightarrow> message list \<times> approval_step" where
  "report_approval_step m finish topic_str st ev =
     (case wait_for_response ev of
        Inl e \<Rightarrow> ([], Raised e)
      | Inr response \<Rightarrow>
          (let action = dict_get response ''action'' JNull in
           if action = JStr ''approve'' then
             ([Progress ReportApproved], Return (current_report st))
           else if action = JStr ''rewrite'' then
             (let rewrite_type = dict_get response ''rewrite_type'' (JStr ''feedback'') in
              if rewrite_type = JStr ''complete'' then
                (case write_report m topic_str (current_interviews (workflow st)) of
                   Inl e \<Rightarrow> ([Progress CompleteRestart], Raised e)
                 | Inr r \<Rightarrow>
                     finish_rewrite [Progress CompleteRestart] (st\<lparr>new_report := Some r\<rparr>))
              else if rewrite_type = JStr ''feedback'' then
                (let feedback = dict_get response ''feedback'' (JStr []) in
                 if truthy feedback then
                   (case rewrite_with_feedback m finish topic_str feedback (workflow st) of
                      Inl e \<Rightarrow>
                        ([Progress (FeedbackReflected feedback), Progress FeedbackRewriting],
                         Raised e)
                    | Inr (r, w) \<Rightarrow>
                        finish_rewrite
                          [Progress (FeedbackReflected feedback), Progress FeedbackRewriting]
                          (st\<lparr>new_report := Some r, workflow := w\<rparr>))
                 else
                   (case write_report m topic_str (current_interviews (workflow st)) of
                      Inl e \<Rightarrow> ([Progress DefaultRewriting], Raised e)
                    | Inr r \<Rightarrow>
                        finish_rewrite [Progress DefaultRewriting] (st\<lparr>new_report := Some r\<rparr>)))
              else finish_rewrite [] st)
           else if action = JStr ''view_full'' then ([], Continue st)
           else ([], Continue st)))"

text \<open>
  The loop. Each iteration sends the approval request and consumes one operator event;
  when the script ends, the loop is left waiting in the state it has reached.
\<close>

datatype approval_end =
    Approved report_parts StormWorkflow "wait_event list"
  | Crashed error
  | Presenting approval_state

fun report_approval_loop ::
  "llm \<Rightarrow> (nat \<Rightarrow> nat) \<Rightarrow> string \<Rightarrow> wait_event list \<Rightarrow> approval_state
     \<Rightarrow> message list \<times> approval_end" where
  "report_approval_loop m finish topic_str [] st =
     ([approval_request topic_str st], Presenting st)"
| "report_approval_loop m finish topic_str (ev # evs) st =
     (case report_approval_step m finish topic_str st ev of
        (msgs, Return r) \<Rightarrow>
          (approval_request topic_str st # msgs, Approved r (workflow st) evs)
      | (msgs, Raised e) \<Rightarrow> (approval_request topic_str st # msgs, Crashed e)
      | (msgs, Continue st') \<Rightarrow>
          (case report_approval_loop m finish topic_str evs st' of
             (msgs', r) \<Rightarrow> (approval_request topic_str st # msgs @ msgs', r)))"

text \<open>\<^verbatim>\<open>get_report_approval\<close>: \<^verbatim>\<open>version = 1\<close>, the report copied, then the loop.\<close>

definition get_report_approval ::
  "llm \<Rightarrow> (nat \<Rightarrow> nat) \<Rightarrow> string \<Rightarrow> report_parts \<Rightarrow> wait_event list \<Rightarrow> StormWorkflow
     \<Rightarrow> message list \<times> approval_end" where
  "get_report_approval m finish topic_str parts evs w =
     report_approval_loop m finish topic_str evs
       \<lparr>version_no = 1, current_report = parts, new_report = None, workflow = w\<rparr>"


text \<open>
  The interview phase of \<^verbatim>\<open>run_interactive_research\<close>. In parallel mode each unit is
  \<^verbatim>\<open>conduct_interview_with_updates\<close>: a progress message, the interview, a progress
  message. In sequential mode the loop does the same inline, over \<^verbatim>\<open>enumerate(analysts)\<close>,
  and the first message also carries \<^verbatim>\<open>i+1\<close> and the number of analysts.
\<close>

definition conduct_interview_with_updates ::
  "llm \<Rightarrow> ResearchTask \<Rightarrow> (nat \<times> nat) option \<Rightarrow> Analyst
     \<Rightarrow> message list \<times> (error + InterviewResult)" where
  "conduct_interview_with_updates m task pos a =
     (case snd (conduct_single_interview m a (max_interview_turns task)) of
        Inl e \<Rightarrow> ([Progress (ConductingInterview a pos)], Inl e)
      | Inr r \<Rightarrow>
          ([Progress (ConductingInterview a pos), Progress (InterviewCompleted a)], Inr r))"

definition interview_phase ::
  "llm \<Rightarrow> (nat \<Rightarrow> nat) \<Rightarrow> ResearchTask \<Rightarrow> Analyst list
     \<Rightarrow> message titem list \<times> InterviewResult list res" where
  "interview_phase m finish task analyst_list =
     (if parallel_interviews task then
        exec_bind (sends [Ev (Progress (ParallelInterviewsStarted analyst_list))])
          (\<lambda>_. case fan_out (conduct_interview_with_updates m task None) finish True
                       analyst_list of
                  (tr, r) \<Rightarrow> (tr, res_of r))
      else
        exec_bind (sends [Ev (Progress (SequentialInterviewsStarted analyst_list))])
          (\<lambda>_. case fan_out
                       (\<lambda>(i, a). conduct_interview_with_updates m task
                                   (Some (i + 1, length analyst_list)) a)
                       finish False (enumerate 0 analyst_list) of
                  (tr, r) \<Rightarrow> (tr, res_of r)))"

text \<open>
  The body of the \<^verbatim>\<open>try\<close> block of \<^verbatim>\<open>run_interactive_research\<close>, phase by phase. The
  analyst count the operator chose is stored in the task before the analysts are
  generated. The result is built from the local variables \<^verbatim>\<open>analysts\<close> and
  \<^verbatim>\<open>interviews\<close> of the first round.
\<close>

definition research_body ::
  "llm \<Rightarrow> (nat \<Rightarrow> nat) \<Rightarrow> ResearchTask \<Rightarrow> wait_event list
     \<Rightarrow> message titem list \<times> result_data res" where
  "research_body m finish task0 evs =
     exec_bind (sends [Ev (Progress Setup)]) (\<lambda>_.
     exec_bind (get_analyst_count (max_analysts task0) evs) (\<lambda>(analyst_count, evs1).
     let task = task0\<lparr>max_analysts := analyst_count\<rparr> in
     exec_bind (sends [Ev (Progress (GeneratingAnalysts analyst_count)),
                       Ev (Progress (AnalyzingTopic (topic task))),
                       Ev (Progress CreatingProfiles)]) (\<lambda>_.
     exec_bind (lift (generate_analysts m task)) (\<lambda>analyst_list.
     exec_bind (sends [Ev (Progress (AnalystsCreated analyst_list)),
                       Ev (Progress PreparingQuestions),
                       Ev (Progress (StartingInterviews (length analyst_list)))]) (\<lambda>_.
     exec_bind (interview_phase m finish task analyst_list) (\<lambda>interview_list.
     exec_bind (sends [Ev (Progress (InterviewsCompleted (length interview_list)
                                        (parallel_interviews task))),
                       Ev (Progress AnalyzingInterviews),
                       Ev (Progress StructuringReport),
                       Ev (Progress WritingReport)]) (\<lambda>_.
     exec_bind (lift (write_report m (topic task) interview_list)) (\<lambda>parts.
     exec_bind (sends [Ev (Progress ReviewingReport)]) (\<lambda>_.
     exec_bind
       (case get_report_approval m finish (topic task) parts evs1 init_workflow of
          (msgs, Approved r w rest) \<Rightarrow> (map Ev msgs, Ok r)
        | (msgs, Crashed e) \<Rightarrow> (map Ev msgs, Raise e)
        | (msgs, Presenting st) \<Rightarrow> (map Ev msgs, Blocked)) (\<lambda>final_report_parts.
     let result =
           \<lparr>result_topic = topic task,
            result_analysts = analyst_list,
            interview_count = length interview_list,
            result_final_report = assemble_final_report m final_report_parts\<rparr>
     in exec_bind (sends [Ev (Progress ResearchCompleted), Ev (Result result)]) (\<lambda>_.
        ([], Ok result))))))))))))"

text \<open>
  \<^verbatim>\<open>run_interactive_research\<close>: the body, and \<^verbatim>\<open>except Exception as e\<close>, which sends
  an error message and ends the run. A \<^verbatim>\<open>CancelledError\<close> is not an \<^verbatim>\<open>Exception\<close> and
  leaves the function.
\<close>

datatype outcome = Completed result_data | Failed error | Aborted error | Waiting

definition run_interactive_research ::
  "llm \<Rightarrow> (nat \<Rightarrow> nat) \<Rightarrow> ResearchTask \<Rightarrow> wait_event list
     \<Rightarrow> message titem list \<times> outcome" where
  "run_interactive_research m finish task evs =
     (case research_body m finish task evs of
        (tr, Ok result) \<Rightarrow> (tr, Completed result)
      | (tr, Raise e) \<Rightarrow>
          (if is_Exception e then (tr @ [Ev (Error e)], Failed e) else (tr, Aborted e))
      | (tr, Blocked) \<Rightarrow> (tr, Waiting))"


section \<open>The console workflow\<close>

text \<open>
  \<^verbatim>\<open>StormWorkflow\<close> in interactive mode (\<^verbatim>\<open>workflow.py\<close>) holds the same dialogues on the
  console. The operator's script is the list of lines \<^verbatim>\<open>safe_input\<close> returns (each
  already stripped); when it ends the code is left waiting for input. What the dialogue
  functions print is recorded as one event per branch, with the values interpolated into
  the text; the progress lines of the research phases are not recorded.
\<close>

text \<open>
  \<^verbatim>\<open>int(s)\<close> for a stripped line of ASCII characters: an optional sign, then digits,
  where single underscores may stand between digits. \<open>None\<close> is \<^verbatim>\<open>ValueError\<close>.
\<close>

definition digit_of :: "char \<Rightarrow> nat option" where
  "digit_of c =
     (let n = (of_char c :: nat) in if 48 \<le> n \<and> n \<le> 57 then Some (n - 48) else None)"

fun digits_val :: "string \<Rightarrow> nat \<Rightarrow> nat option" where
  "digits_val [] acc = Some acc"
| "digits_val [c] acc =
     (case digit_of c of None \<Rightarrow> None | Some v \<Rightarrow> Some (10 * acc + v))"
| "digits_val (c # d # ds) acc =
     (if c = CHR ''_'' then
        (case digit_of d of None \<Rightarrow> None | Some v \<Rightarrow> digits_val ds (10 * acc + v))
      else
        (case digit_of c of None \<Rightarrow> None | Some v \<Rightarrow> digits_val (d # ds) (10 * acc + v)))"

definition nat_of_string :: "string \<Rightarrow> nat option" where
  "nat_of_string s =
     (case s of
        [] \<Rightarrow> None
      | c # cs \<Rightarrow> (case digit_of c of None \<Rightarrow> None | Some v \<Rightarrow> digits_val cs v))"

definition py_int :: "string \<Rightarrow> int option" where
  "py_int s =
     (case s of
        [] \<Rightarrow> None
      | c # cs \<Rightarrow>
          if c = CHR ''-'' then map_option (\<lambda>n. - int n) (nat_of_string cs)
          else if c = CHR ''+'' then map_option int (nat_of_string cs)
          else map_option int (nat_of_string s))"

datatype console =
    AnalystCountHeader json
  | InvalidNumber
  | InvalidRange
  | ProceedingWith json
  | ReviewHeader nat report_parts
  | Menu nat
  | ApprovedWith nat
  | RewriteMenu
  | CompleteRewriteStart
  | AskImprovement
  | FeedbackEcho string
  | NoFeedbackDefault
  | InvalidRewriteChoice
  | Rewritten nat
  | FullReport report_parts
  | CompareHeader nat
  | CompareCancelled
  | VersionShown nat
  | InvalidVersion nat
  | CompareFooter
  | InvalidChoice nat

text \<open>
  \<^verbatim>\<open>_get_analyst_count_from_user\<close>: an empty line takes the default; a number from 1 to
  10 is taken; anything else is refused with a message and asked again.
\<close>

fun analyst_count_loop :: "json \<Rightarrow> string list \<Rightarrow> console list \<times> (json \<times> string list) res" where
  "analyst_count_loop default_count [] = ([], Blocked)"
| "analyst_count_loop default_count (user_input # rest) =
     (if user_input = [] then ([], Ok (default_count, rest))
      else
        (case py_int user_input of
           None \<Rightarrow>
             (case analyst_count_loop default_count rest of
                (out, r) \<Rightarrow> (InvalidNumber # out, r))
         | Some count \<Rightarrow>
             if 1 \<le> count \<and> count \<le> 10 then ([], Ok (JInt count, rest))
             else
               (case analyst_count_loop default_count rest of
                  (out, r) \<Rightarrow> (InvalidRange # out, r))))"

definition get_analyst_count_from_user ::
  "json \<Rightarrow> string list \<Rightarrow> console list \<times> (json \<times> string list) res" where
  "get_analyst_count_from_user default_count inp =
     (case analyst_count_loop default_count inp of
        (out, r) \<Rightarrow> (AnalystCountHeader default_count # out, r))"

text \<open>The first of the three keys a report lacks, if any: \<^verbatim>\<open>d[key]\<close> raises on it.\<close>

definition missing_key :: "report_parts \<Rightarrow> string option" where
  "missing_key r =
     List.find (\<lambda>k. map_of r k = None) [''introduction'', ''main_content'', ''conclusion'']"

text \<open>
  \<^verbatim>\<open>_run_automatic_research\<close>, which the complete rewrite runs: analysts, interviews,
  report, and the result built from the parts. An exception is logged and raised again.
\<close>

definition run_automatic_research ::
  "llm \<Rightarrow> (nat \<Rightarrow> nat) \<Rightarrow> ResearchTask \<Rightarrow> error + ResearchResult" where
  "run_automatic_research m finish task =
     (case generate_analysts_with_diverse_tools m task of
        Inl e \<Rightarrow> Inl e
      | Inr analyst_list \<Rightarrow>
          (case snd (conduct_interviews m finish analyst_list task) of
             Inl e \<Rightarrow> Inl e
           | Inr interview_list \<Rightarrow>
               (case write_report m (topic task) interview_list of
                  Inl e \<Rightarrow> Inl e
                | Inr parts \<Rightarrow>
                    (case missing_key parts of
                       Some k \<Rightarrow> Inl (KeyError k)
                     | None \<Rightarrow>
                         Inr \<lparr>res_topic = topic task,
                              analysts = analyst_list,
                              interviews = interview_list,
                              introduction = part parts ''introduction'',
                              main_content = part parts ''main_content'',
                              conclusion = part parts ''conclusion'',
                              final_report = assemble_final_report m parts\<rparr>))))"

text \<open>
  \<^verbatim>\<open>_show_full_report\<close> prints the three parts and waits for a line;
  \<^verbatim>\<open>_compare_report_versions\<close> lists the versions and lets the operator look at any of
  them until a \<^verbatim>\<open>0\<close> or an answer other than \<^verbatim>\<open>y\<close>. Neither changes anything.
\<close>

definition show_full_report :: "report_parts \<Rightarrow> string list \<Rightarrow> console list \<times> string list res" where
  "show_full_report r inp =
     (case missing_key r of
        Some k \<Rightarrow> ([], Raise (KeyError k))
      | None \<Rightarrow> ([FullReport r], case inp of [] \<Rightarrow> Blocked | _ # rest \<Rightarrow> Ok rest))"

fun compare_loop :: "report_parts list \<Rightarrow> string list \<Rightarrow> console list \<times> string list res" where
  "compare_loop versions [] = ([], Blocked)"
| "compare_loop versions (version_num # rest) =
     (if version_num = ''0'' then ([CompareCancelled], Ok rest)
      else
        (case py_int version_num of
           None \<Rightarrow>
             (case compare_loop versions rest of (out, r) \<Rightarrow> (InvalidNumber # out, r))
         | Some k \<Rightarrow>
             if 0 \<le> k - 1 \<and> k - 1 < int (length versions) then
               (case missing_key (versions ! nat (k - 1)) of
                  Some key \<Rightarrow> ([], Raise (KeyError key))
                | None \<Rightarrow>
                    (case rest of
                       [] \<Rightarrow> ([VersionShown (nat k)], Blocked)
                     | continue_choice # rest' \<Rightarrow>
                         if continue_choice = ''y'' \<or> continue_choice = ''Y'' then
                           (case compare_loop versions rest' of
                              (out, r) \<Rightarrow> (VersionShown (nat k) # out, r))
                         else ([VersionShown (nat k)], Ok rest')))
             else
               (case compare_loop versions rest of
                  (out, r) \<Rightarrow> (InvalidVersion (length versions) # out, r))))"

definition compare_report_versions ::
  "report_parts list \<Rightarrow> string list \<Rightarrow> console list \<times> string list res" where
  "compare_report_versions versions inp =
     (case List.find (\<lambda>v. missing_key v \<noteq> None) versions of
        Some v \<Rightarrow> ([], Raise (KeyError (the (missing_key v))))
      | None \<Rightarrow>
          (case compare_loop versions inp of
             (out, Ok rest) \<Rightarrow>
               (CompareHeader (length versions) # out @ [CompareFooter],
                case rest of [] \<Rightarrow> Blocked | _ # rest' \<Rightarrow> Ok rest')
           | (out, r) \<Rightarrow> (CompareHeader (length versions) # out, r)))"


text \<open>
  The state of \<^verbatim>\<open>_get_final_report_approval\<close>: the workflow object and the local
  \<^verbatim>\<open>report_parts\<close>, the report under review. The version shown to the operator is
  always \<^verbatim>\<open>len(self.report_versions)\<close>.
\<close>

record review_state =
  self :: StormWorkflow
  report_parts :: report_parts

datatype review_step =
    Again review_state "string list"
  | Accept report_parts StormWorkflow "string list"
  | Abort error
  | NeedInput review_state

text \<open>
  The end of the rewrite branch: the new report is appended to the history, becomes the
  current report and the report under review, and the loop continues.
\<close>

definition append_version ::
  "console list \<Rightarrow> report_parts \<Rightarrow> StormWorkflow \<Rightarrow> string list \<Rightarrow> console list \<times> review_step" where
  "append_version out new_report_parts w rest =
     (let w' = w\<lparr>report_versions := report_versions w @ [new_report_parts],
                 current_report_parts := new_report_parts\<rparr>
      in (out @ [Rewritten (length (report_versions w'))],
          Again \<lparr>self = w', report_parts = new_report_parts\<rparr> rest))"

text \<open>
  The rewrite branch (choice \<^verbatim>\<open>2\<close>), from its second prompt on. \<^verbatim>\<open>1\<close> runs the whole
  automatic research again with as many analysts as there are now; \<^verbatim>\<open>2\<close> asks for
  feedback and rewrites with it, or from the current interviews when the line is empty;
  any other answer is reported as wrong and the report is rewritten from the current
  interviews all the same.
\<close>

definition rewrite_branch ::
  "llm \<Rightarrow> (nat \<Rightarrow> nat) \<Rightarrow> string \<Rightarrow> review_state \<Rightarrow> string list
     \<Rightarrow> console list \<times> review_step" where
  "rewrite_branch m finish topic_str st inp =
     (let w = self st in
      case inp of
        [] \<Rightarrow> ([RewriteMenu], NeedInput st)
      | rewrite_choice # rest \<Rightarrow>
          if rewrite_choice = ''1'' then
            (let task_copy =
                   \<lparr>topic = topic_str,
                    max_analysts = JInt (int (length (current_analysts w))),
                    max_interview_turns = 3, parallel_interviews = True,
                    user_feedback = None\<rparr>
             in case run_automatic_research m finish task_copy of
                  Inl e \<Rightarrow> ([RewriteMenu, CompleteRewriteStart], Abort e)
                | Inr research_result \<Rightarrow>
                    append_version [RewriteMenu, CompleteRewriteStart]
                      [(''main_content'', main_content research_result),
                       (''introduction'', introduction research_result),
                       (''conclusion'', conclusion research_result)]
                      (w\<lparr>current_analysts := analysts research_result,
                         current_interviews := interviews research_result\<rparr>)
                      rest)
          else if rewrite_choice = ''2'' then
            (case rest of
               [] \<Rightarrow> ([RewriteMenu, AskImprovement], NeedInput st)
             | feedback # rest' \<Rightarrow>
                 if feedback \<noteq> [] then
                   (case rewrite_with_feedback m finish topic_str (JStr feedback) w of
                      Inl e \<Rightarrow> ([RewriteMenu, AskImprovement, FeedbackEcho feedback], Abort e)
                    | Inr (new_report_parts, w') \<Rightarrow>
                        append_version [RewriteMenu, AskImprovement, FeedbackEcho feedback]
                          new_report_parts w' rest')
                 else
                   (case write_report m topic_str (current_interviews w) of
                      Inl e \<Rightarrow> ([RewriteMenu, AskImprovement, NoFeedbackDefault], Abort e)
                    | Inr new_report_parts \<Rightarrow>
                        append_version [RewriteMenu, AskImprovement, NoFeedbackDefault]
                          new_report_parts w rest'))
          else
            (case write_report m topic_str (current_interviews w) of
               Inl e \<Rightarrow> ([RewriteMenu, InvalidRewriteChoice], Abort e)
             | Inr new_report_parts \<Rightarrow>
                 append_version [RewriteMenu, InvalidRewriteChoice] new_report_parts w rest))"

text \<open>
  One iteration of the \<^verbatim>\<open>while True\<close> loop: the menu (with a fourth option once there
  is more than one version), the choice, and the branch it selects.
\<close>

definition review_iteration ::
  "llm \<Rightarrow> (nat \<Rightarrow> nat) \<Rightarrow> string \<Rightarrow> review_state \<Rightarrow> string list
     \<Rightarrow> console list \<times> review_step" where
  "review_iteration m finish topic_str st inp =
     (let versions = report_versions (self st);
          n_options = (if length versions > 1 then 4 else 3 :: nat)
      in case inp of
           [] \<Rightarrow> ([Menu n_options], NeedInput st)
         | choice # rest \<Rightarrow>
             if choice = ''1'' then
               ([Menu n_options, ApprovedWith (length versions)],
                Accept (report_parts st) (self st) rest)
             else if choice = ''2'' then
               (case rewrite_branch m finish topic_str st rest of
                  (out, r) \<Rightarrow> (Menu n_options # out, r))
             else if choice = ''3'' then
               (case show_full_report (report_parts st) rest of
                  (out, Ok rest') \<Rightarrow> (Menu n_options # out, Again st rest')
                | (out, Raise e) \<Rightarrow> (Menu n_options # out, Abort e)
                | (out, Blocked) \<Rightarrow> (Menu n_options # out, NeedInput st))
             else if choice = ''4'' \<and> length versions > 1 then
               (case compare_report_versions versions rest of
                  (out, Ok rest') \<Rightarrow> (Menu n_options # out, Again st rest')
                | (out, Raise e) \<Rightarrow> (Menu n_options # out, Abort e)
                | (out, Blocked) \<Rightarrow> (Menu n_options # out, NeedInput st))
             else ([Menu n_options, InvalidChoice n_options], Again st rest))"


text \<open>
  Every iteration that continues has consumed at least one line of input, which is what
  makes the loop below a function of the operator's (finite) script.
\<close>

lemma compare_loop_shorter:
  "compare_loop versions inp = (out, Ok rest) \<Longrightarrow> length rest < length inp"
proof (induction versions inp arbitrary: out rule: compare_loop.induct)
  case (1 versions)
  then show ?case by simp
next
  case (2 versions version_num rest0)
  then show ?case
    by (fastforce split: if_splits option.splits prod.splits list.splits)
qed

lemma compare_report_versions_shorter:
  "compare_report_versions versions inp = (out, Ok rest) \<Longrightarrow> length rest < length inp"
  by (auto simp: compare_report_versions_def
      split: option.splits prod.splits res.splits list.splits
      dest!: compare_loop_shorter)

lemma append_version_rest:
  "append_version out0 r w rest0 = (out, Again st' rest) \<Longrightarrow> rest = rest0"
  by (auto simp: append_version_def Let_def)

lemma rewrite_branch_shorter:
  "rewrite_branch m finish topic_str st inp = (out, Again st' rest)
     \<Longrightarrow> length rest < length inp"
  by (auto simp: rewrite_branch_def Let_def
      split: list.splits if_splits sum.splits prod.splits dest!: append_version_rest)

lemma review_iteration_shorter:
  "review_iteration m finish topic_str st inp = (out, Again st' rest)
     \<Longrightarrow> length rest < length inp"
  by (auto simp: review_iteration_def Let_def show_full_report_def
      split: list.splits if_splits prod.splits res.splits option.splits
      dest!: rewrite_branch_shorter compare_report_versions_shorter)

datatype review_end =
    Reviewed report_parts StormWorkflow "string list"
  | Stopped error
  | AwaitingInput review_state

function review_loop ::
  "llm \<Rightarrow> (nat \<Rightarrow> nat) \<Rightarrow> string \<Rightarrow> review_state \<Rightarrow> string list
     \<Rightarrow> console list \<times> review_end" where
  "review_loop m finish topic_str st inp =
     (case review_iteration m finish topic_str st inp of
        (out, Again st' rest) \<Rightarrow>
          (case review_loop m finish topic_str st' rest of (out', r) \<Rightarrow> (out @ out', r))
      | (out, Accept r w rest) \<Rightarrow> (out, Reviewed r w rest)
      | (out, Abort e) \<Rightarrow> (out, Stopped e)
      | (out, NeedInput st') \<Rightarrow> (out, AwaitingInput st'))"
  by pat_completeness auto
termination
  by (relation "measure (\<lambda>(m, finish, topic_str, st, inp). length inp)")
    (auto dest: review_iteration_shorter [OF sym])

declare review_loop.simps [simp del]

text \<open>
  \<^verbatim>\<open>_get_final_report_approval\<close>: the first report is appended to the history and
  becomes the current report, the preview is printed, and the loop starts.
\<close>

definition get_final_report_approval ::
  "llm \<Rightarrow> (nat \<Rightarrow> nat) \<Rightarrow> string \<Rightarrow> report_parts \<Rightarrow> string list \<Rightarrow> StormWorkflow
     \<Rightarrow> console list \<times> review_end" where
  "get_final_report_approval m finish topic_str parts inp w =
     (let w' = w\<lparr>report_versions := report_versions w @ [parts],
                 current_report_parts := parts\<rparr>
      in case review_loop m finish topic_str \<lparr>self = w', report_parts = parts\<rparr> inp of
           (out, r) \<Rightarrow> (ReviewHeader (length (report_versions w')) parts # out, r))"

text \<open>
  \<^verbatim>\<open>_run_interactive_research\<close>: the analyst count, the analysts, the interviews and
  the first report, with the analysts and interviews also stored in the object; then the
  approval dialogue; then the result, built from the approved report and from the local
  variables \<^verbatim>\<open>analysts\<close> and \<^verbatim>\<open>interviews\<close>.
\<close>

definition workflow_run_interactive_research ::
  "llm \<Rightarrow> (nat \<Rightarrow> nat) \<Rightarrow> ResearchTask \<Rightarrow> string list \<Rightarrow> StormWorkflow
     \<Rightarrow> console list \<times> (ResearchResult \<times> StormWorkflow) res" where
  "workflow_run_interactive_research m finish task0 inp w =
     exec_bind (get_analyst_count_from_user (max_analysts task0) inp)
       (\<lambda>(final_analyst_count, inp1).
     let task = task0\<lparr>max_analysts := final_analyst_count\<rparr> in
     exec_bind (sends [ProceedingWith final_analyst_count]) (\<lambda>_.
     exec_bind (lift (generate_analysts_with_diverse_tools m task)) (\<lambda>analyst_list.
     let w1 = w\<lparr>current_analysts := analyst_list\<rparr> in
     exec_bind (lift (snd (conduct_interviews m finish analyst_list task))) (\<lambda>interview_list.
     let w2 = w1\<lparr>current_interviews := interview_list\<rparr> in
     exec_bind (lift (write_report m (topic task) interview_list)) (\<lambda>parts.
     exec_bind
       (case get_final_report_approval m finish (topic task) parts inp1 w2 of
          (out, Reviewed r w3 rest) \<Rightarrow> (out, Ok (r, w3))
        | (out, Stopped e) \<Rightarrow> (out, Raise e)
        | (out, AwaitingInput st) \<Rightarrow> (out, Blocked)) (\<lambda>(final_report_parts, w3).
     case missing_key final_report_parts of
       Some k \<Rightarrow> ([], Raise (KeyError k))
     | None \<Rightarrow>
         ([], Ok (\<lparr>res_topic = topic task,
                   analysts = analyst_list,
                   interviews = interview_list,
                   introduction = part final_report_parts ''introduction'',
                   main_content = part final_report_parts ''main_content'',
                   conclusion = part final_report_parts ''conclusion'',
                   final_report = assemble_final_report m final_report_parts\<rparr>, w3))))))))"


section \<open>Notions used to state the properties\<close>

text \<open>
  An operator event that the approval loop of the backend reads as a rewrite decision: a
  reply that arrives in time and whose \<^verbatim>\<open>action\<close> is \<^verbatim>\<open>rewrite\<close>.
\<close>

definition rewrite_decision :: "wait_event \<Rightarrow> bool" where
  "rewrite_decision ev =
     (case wait_for_response ev of
        Inl e \<Rightarrow> False
      | Inr response \<Rightarrow> dict_get response ''action'' JNull = JStr ''rewrite'')"

text \<open>
  What the console dialogue keeps true between its iterations: the history is not empty
  and the report under review is its last entry.
\<close>

definition review_inv :: "review_state \<Rightarrow> bool" where
  "review_inv st \<longleftrightarrow>
     report_versions (self st) \<noteq> [] \<and> report_parts st = last (report_versions (self st))"

section \<open>Example inputs\<close>

text \<open>
  A scripted stand-in for the language model, used to run the model on concrete inputs:
  it generates as many analysts as the task asks for, answers every interview except
  that of the analyst named \<open>bad\<close>, and writes reports that show which sections went
  into them.
\<close>

definition mk_analyst :: "string \<Rightarrow> Analyst" where
  "mk_analyst n =
     \<lparr>affiliation = ''Lab'', name = n, role = ''Researcher'', description = ''none''\<rparr>"

definition numbered_analysts :: "json \<Rightarrow> Analyst list" where
  "numbered_analysts count =
     (case count of
        JInt n \<Rightarrow> map (\<lambda>i. mk_analyst (''A'' @ replicate i CHR ''i'')) [0..<nat n]
      | _ \<Rightarrow> [mk_analyst ''A''])"

definition scripted_llm :: "string \<Rightarrow> llm" where
  "scripted_llm bad =
     \<lparr>generate_analysts = (\<lambda>t. Inr (numbered_analysts (max_analysts t))),
      generate_analysts_with_diverse_tools = (\<lambda>t. Inr (numbered_analysts (max_analysts t))),
      generate_additional_analyst_with_feedback = (\<lambda>t f al. Inr (mk_analyst ''Extra'')),
      interview_team_run =
        (\<lambda>a n. if name a = bad then Inl (Failure ''model unavailable'') else Inr [''Q'', ''A'']),
      section_team_run = (\<lambda>a c. Inr [c, ''S-'' @ name a]),
      feedback_interview_team_run = (\<lambda>a f n. Inr [''Q'', ''A'']),
      feedback_section_team_run = (\<lambda>a f c. Inr [c, ''F-'' @ name a]),
      report_writers = (\<lambda>t sections. Inr (''M:'' @ sections, ''I'', ''C'')),
      feedback_report_writers = (\<lambda>f t sections. Inr (''FM:'' @ sections, ''FI'', ''FC'')),
      assemble_final_report =
        (\<lambda>r. part r ''introduction'' @ part r ''main_content'' @ part r ''conclusion'')\<rparr>"

definition three_analysts :: "Analyst list" where
  "three_analysts = [mk_analyst ''Ada'', mk_analyst ''Bob'', mk_analyst ''Cyd'']"

definition interview_of :: "string \<Rightarrow> InterviewResult" where
  "interview_of n =
     \<lparr>analyst = mk_analyst n, interview_content = ''Q'' @ [CHR 0x0A] @ ''A'',
      section_content = ''S-'' @ n\<rparr>"

definition effects_of :: "string \<Rightarrow> effect list" where
  "effects_of n =
     [InterviewRun (mk_analyst n) 3, SectionRun (mk_analyst n) (''Q'' @ [CHR 0x0A] @ ''A'')]"

definition task_X :: "bool \<Rightarrow> ResearchTask" where
  "task_X par =
     \<lparr>topic = ''X'', max_analysts = JInt 2, max_interview_turns = 3,
      parallel_interviews = par, user_feedback = None\<rparr>"

definition draft_1 :: report_parts where
  "draft_1 = [(''main_content'', ''M''), (''introduction'', ''I''), (''conclusion'', ''C'')]"

text \<open>Replies of the operator, each arriving one second after it was asked for.\<close>

definition reply_count :: "int \<Rightarrow> wait_event" where
  "reply_count n = Reply 1 [(''count'', JInt n)]"

definition reply_approve :: wait_event where
  "reply_approve = Reply 1 [(''action'', JStr ''approve'')]"

definition reply_view_full :: wait_event where
  "reply_view_full = Reply 1 [(''action'', JStr ''view_full'')]"

definition reply_rewrite :: "string \<Rightarrow> wait_event" where
  "reply_rewrite rewrite_type =
     Reply 1 [(''action'', JStr ''rewrite''), (''rewrite_type'', JStr rewrite_type)]"

definition reply_feedback :: "string \<Rightarrow> wait_event" where
  "reply_feedback feedback =
     Reply 1 [(''action'', JStr ''rewrite''), (''rewrite_type'', JStr ''feedback''),
              (''feedback'', JStr feedback)]"

text \<open>
  The states in which the two approval loops start on \<open>draft_1\<close> with a fresh workflow
  object, and two scripts with three rewrites and a look at the full report each.
\<close>

definition review_start :: review_state where
  "review_start =
     \<lparr>self = init_workflow\<lparr>report_versions := [draft_1], current_report_parts := draft_1\<rparr>,
      report_parts = draft_1\<rparr>"

definition approval_start :: approval_state where
  "approval_start =
     \<lparr>version_no = 1, current_report = draft_1, new_report = None, workflow = init_workflow\<rparr>"

definition console_three_rewrites :: "string list" where
  "console_three_rewrites =
     [''2'', ''9'', ''3'', [], ''2'', ''2'', [], ''2'', ''1'', ''1'']"

definition web_three_rewrites :: "wait_event list" where
  "web_three_rewrites =
     [reply_rewrite ''complete'', reply_view_full, reply_feedback ''shorter'',
      reply_rewrite ''complete'']"

definition reply_publish :: wait_event where
  "reply_publish = Reply 1 [(''action'', JStr ''publish'')]"

text \<open>Two sessions whose identifiers share a prefix, each with an approval outstanding.\<close>

definition one_ask :: registry where
  "one_ask = snd (wait_begin ''s1'' REPORT_APPROVAL empty_registry)"

definition two_sessions :: registry where
  "two_sessions =
     snd (wait_begin ''s10'' REPORT_APPROVAL
            (snd (wait_begin ''s1'' REPORT_APPROVAL
                    (ws_accept ''s10'' 1 (ws_accept ''s1'' 0 empty_registry)))))"


section \<open>Properties of the pending-response map\<close>

text \<open>
  The disconnect handler, characterised: it removes exactly the keys that start with the
  session identifier, and cancels exactly the futures that were pending under such a key.
\<close>

lemma cancel_keys_pending:
  "map_of (pending_responses (cancel_keys sid keys r)) k =
     (if k \<in> set keys \<and> prefix sid k then None else map_of (pending_responses r) k)"
proof (induction keys arbitrary: r)
  case Nil
  then show ?case by simp
next
  case (Cons key keys)
  show ?case
    by (auto simp: Cons.IH Let_def delete_conv' cancel_def split: option.splits)
qed

lemma ws_disconnect_pending:
  "map_of (pending_responses (ws_disconnect sid r)) k =
     (if prefix sid k then None else map_of (pending_responses r) k)"
  by (auto simp: ws_disconnect_def Let_def cancel_keys_pending map_of_eq_None_iff)

lemma cancel_keys_futures:
  "futures (cancel_keys sid keys r) f =
     (if futures r f = Some FutPending \<and>
         (\<exists>k \<in> set keys. prefix sid k \<and> map_of (pending_responses r) k = Some f)
      then Some FutCancelled else futures r f)"
proof (induction keys arbitrary: r)
  case Nil
  then show ?case by simp
next
  case (Cons key keys)
  show ?case
    apply (simp only: cancel_keys.simps Cons.IH)
    apply (auto simp: Let_def delete_conv' cancel_def fut_done_def split: option.splits if_splits)
    done
qed

lemma ws_disconnect_futures:
  "futures (ws_disconnect sid r) f =
     (if futures r f = Some FutPending \<and>
         (\<exists>k. prefix sid k \<and> map_of (pending_responses r) k = Some f)
      then Some FutCancelled else futures r f)"
proof -
  have "(\<exists>k \<in> set (map fst (pending_responses r)).
           prefix sid k \<and> map_of (pending_responses r) k = Some f)
        \<longleftrightarrow> (\<exists>k. prefix sid k \<and> map_of (pending_responses r) k = Some f)"
  proof
    assume "\<exists>k \<in> set (map fst (pending_responses r)).
              prefix sid k \<and> map_of (pending_responses r) k = Some f"
    then show "\<exists>k. prefix sid k \<and> map_of (pending_responses r) k = Some f" by blast
  next
    assume "\<exists>k. prefix sid k \<and> map_of (pending_responses r) k = Some f"
    then obtain k where k: "prefix sid k" "map_of (pending_responses r) k = Some f" by blast
    from k(2) have "(k, f) \<in> set (pending_responses r)" by (rule map_of_SomeD)
    then have "k \<in> set (map fst (pending_responses r))" by force
    with k show "\<exists>k \<in> set (map fst (pending_responses r)).
              prefix sid k \<and> map_of (pending_responses r) k = Some f" by blast
  qed
  then show ?thesis
    by (simp add: ws_disconnect_def Let_def cancel_keys_futures)
qed

text \<open>
  A call of \<^verbatim>\<open>wait_for_response\<close> that is left alone yields what the event says,
  whatever the registry held before, and leaves no entry under its key.
\<close>

lemma wait_for_response_on_outcome:
  "fst (wait_for_response_on session_id response_type ev r) = wait_for_response ev"
proof (cases ev)
  case (Reply t response)
  then show ?thesis
    by (simp add: wait_for_response_on_def timed_out_def wait_begin_def Let_def
        ws_receive_def update_conv' fut_done_def set_result_def)
next
  case (Disconnect t)
  have "prefix session_id (response_key session_id response_type)"
    by (simp add: response_key_def)
  then have "\<exists>k. prefix session_id k \<and>
      map_of (pending_responses (snd (wait_begin session_id response_type r))) k
        = Some (next_future r)"
    by (intro exI [of _ "response_key session_id response_type"])
      (simp add: wait_begin_def Let_def update_conv')
  then have "futures (ws_disconnect session_id (snd (wait_begin session_id response_type r)))
               (next_future r) = Some FutCancelled"
    by (simp add: ws_disconnect_futures) (simp add: wait_begin_def Let_def)
  with Disconnect show ?thesis
    by (simp add: wait_for_response_on_def timed_out_def split_beta Let_def)
      (simp add: wait_begin_def Let_def)
next
  case Silence
  then show ?thesis
    by (simp add: wait_for_response_on_def timed_out_def split_beta Let_def)
qed

lemma wait_for_response_on_removes_key:
  "map_of (pending_responses (snd (wait_for_response_on session_id response_type ev r)))
     (response_key session_id response_type) = None"
  by (simp add: wait_for_response_on_def split_beta Let_def wait_finally_def delete_conv')

text \<open>
  Claim C2, as the code has it. A call of \<^verbatim>\<open>wait_for_response\<close> never fails at
  registration, whatever is pending: it creates a fresh future and stores it under the
  key of the session and response kind by plain assignment. If an earlier request for the
  same key is still outstanding, its future is replaced in the map and stays pending and
  untouched; a reply that arrives afterwards resolves the new future only.
\<close>

theorem wait_begin_replaces:
  "fst (wait_begin session_id response_type r) = next_future r
   \<and> map_of (pending_responses (snd (wait_begin session_id response_type r)))
       (response_key session_id response_type) = Some (next_future r)
   \<and> futures (snd (wait_begin session_id response_type r)) (next_future r) = Some FutPending
   \<and> futures (ws_receive session_id response_type d
                (snd (wait_begin session_id response_type r))) (next_future r)
       = Some (FutResult d)
   \<and> (\<forall>f. f \<noteq> next_future r \<longrightarrow>
          futures (snd (wait_begin session_id response_type r)) f = futures r f
        \<and> futures (ws_receive session_id response_type d
                     (snd (wait_begin session_id response_type r))) f = futures r f)"
  by (simp add: wait_begin_def Let_def update_conv' ws_receive_def fut_done_def set_result_def)

text \<open>
  The theorem at work: session \<open>s1\<close> has asked for an approval (future 0, pending) and
  asks again before any reply. The key now leads to future 1, and future 0 is still
  pending, also after the operator's reply has been delivered.
\<close>

theorem wait_begin_replaces_witness:
  "map_of (pending_responses one_ask) (response_key ''s1'' REPORT_APPROVAL) = Some 0
   \<and> futures one_ask 0 = Some FutPending
   \<and> next_future one_ask = 1
   \<and> map_of (pending_responses (snd (wait_begin ''s1'' REPORT_APPROVAL one_ask)))
        (response_key ''s1'' REPORT_APPROVAL) = Some 1
   \<and> futures (snd (wait_begin ''s1'' REPORT_APPROVAL one_ask)) 0 = Some FutPending
   \<and> futures (ws_receive ''s1'' REPORT_APPROVAL [(''action'', JStr ''approve'')]
                (snd (wait_begin ''s1'' REPORT_APPROVAL one_ask))) 0 = Some FutPending
   \<and> futures (ws_receive ''s1'' REPORT_APPROVAL [(''action'', JStr ''approve'')]
                (snd (wait_begin ''s1'' REPORT_APPROVAL one_ask))) 1
        = Some (FutResult [(''action'', JStr ''approve'')])"
proof -
  have n: "next_future one_ask = 1" and p: "futures one_ask 0 = Some FutPending"
    and k: "map_of (pending_responses one_ask) (response_key ''s1'' REPORT_APPROVAL) = Some 0"
    by (simp_all add: one_ask_def wait_begin_def empty_registry_def Let_def update_conv')
  from wait_begin_replaces
         [of "''s1''" REPORT_APPROVAL one_ask "[(''action'', JStr ''approve'')]"] n p k
  show ?thesis by simp
qed

text \<open>
  Claim C2 as stated fails: the second request for the key of a request that is still
  outstanding is accepted (it gets future 1) and takes the first one's place in the map.
\<close>

theorem second_ask_replaces_first:
  "fst (wait_begin ''s1'' REPORT_APPROVAL empty_registry) = 0
   \<and> pending_responses one_ask = [(''s1_report_approval'', 0)]
   \<and> futures one_ask 0 = Some FutPending
   \<and> fst (wait_begin ''s1'' REPORT_APPROVAL one_ask) = 1
   \<and> pending_responses (snd (wait_begin ''s1'' REPORT_APPROVAL one_ask))
        = [(''s1_report_approval'', 1)]
   \<and> futures (snd (wait_begin ''s1'' REPORT_APPROVAL one_ask)) 0 = Some FutPending"
  by (simp add: one_ask_def wait_begin_def empty_registry_def Let_def response_key_def)

text \<open>
  Claim C3 at a failing input. Sessions \<open>s1\<close> and \<open>s10\<close> are connected and each waits
  for an approval. When \<open>s1\<close> disconnects, the handler selects the keys that start with
  \<open>s1\<close>; the key of \<open>s10\<close> does, so the pending request of \<open>s10\<close> is removed and its
  future cancelled as well, although \<open>s10\<close> is still connected.
\<close>

theorem disconnect_cancels_other_session:
  "pending_responses two_sessions
     = [(''s1_report_approval'', 0), (''s10_report_approval'', 1)]
   \<and> futures two_sessions 1 = Some FutPending
   \<and> active_connections (ws_disconnect ''s1'' two_sessions) = [(''s10'', 1)]
   \<and> pending_responses (ws_disconnect ''s1'' two_sessions) = []
   \<and> futures (ws_disconnect ''s1'' two_sessions) 0 = Some FutCancelled
   \<and> futures (ws_disconnect ''s1'' two_sessions) 1 = Some FutCancelled"
  by (simp add: two_sessions_def wait_begin_def empty_registry_def Let_def response_key_def
      ws_disconnect_def ws_accept_def fut_done_def cancel_def)


section \<open>Properties of the interview fan-out stage\<close>

lemma failed_units_Nil_iff: "failed_units outs = [] \<longleftrightarrow> (\<forall>x \<in> set outs. \<not> isl x)"
  by (auto simp: failed_units_def filter_empty_conv all_set_conv_all_nth)

lemma map_Inr_projr: "(\<forall>x \<in> set outs. \<not> isl x) \<Longrightarrow> map Inr (map projr outs) = outs"
  by (induction outs) (auto simp: isl_def)

lemma earliest_mem: "earliest finish i js \<in> set (i # js)"
  by (induction js arbitrary: i) auto

lemma failed_units_mem: "k \<in> set (failed_units outs) \<Longrightarrow> k < length outs \<and> isl (outs ! k)"
  by (auto simp: failed_units_def)

lemma gather_Inr_iff: "gather finish outs = Inr rs \<longleftrightarrow> outs = map Inr rs"
proof
  assume "gather finish outs = Inr rs"
  then have "failed_units outs = []" and rs: "rs = map projr outs"
    by (auto simp: gather_def split: list.splits)
  then have "\<forall>x \<in> set outs. \<not> isl x" by (simp add: failed_units_Nil_iff)
  then have "map Inr (map projr outs) = outs" by (rule map_Inr_projr)
  with rs show "outs = map Inr rs" by simp
next
  assume outs: "outs = map Inr rs"
  then have "failed_units outs = []" by (simp add: failed_units_Nil_iff)
  with outs show "gather finish outs = Inr rs" by (simp add: gather_def comp_def)
qed

lemma gather_Inl:
  assumes "gather finish outs = Inl e"
  shows "\<exists>k < length outs. outs ! k = Inl e"
proof -
  from assms obtain i js where f: "failed_units outs = i # js"
    and e: "e = projl (outs ! earliest finish i js)"
    by (auto simp: gather_def split: list.splits)
  have "earliest finish i js \<in> set (failed_units outs)"
    using earliest_mem [of finish i js] f by simp
  then have "earliest finish i js < length outs \<and> isl (outs ! earliest finish i js)"
    by (rule failed_units_mem)
  with e show ?thesis by (auto simp: isl_def)
qed

lemma sequential_loop_Inr_iff:
  "snd (sequential_loop unit xs acc) = Inr rs \<longleftrightarrow>
     (\<exists>rs'. rs = acc @ rs' \<and> map (\<lambda>a. snd (unit a)) xs = map Inr rs')"
proof (induction xs arbitrary: acc)
  case Nil
  then show ?case by auto
next
  case (Cons a xs)
  show ?case
  proof (cases "unit a")
    case (Pair effs out)
    show ?thesis
    proof (cases out)
      case (Inl e)
      with Pair show ?thesis by auto
    next
      case (Inr r)
      with Pair Cons.IH [of "acc @ [r]"] show ?thesis
        by (auto simp: split_beta Cons_eq_map_conv)
    qed
  qed
qed

lemma sequential_loop_effects_Inr:
  "snd (sequential_loop unit xs acc) = Inr rs \<Longrightarrow>
     fst (sequential_loop unit xs acc) = concat (map (\<lambda>a. fst (unit a)) xs)"
proof (induction xs arbitrary: acc)
  case Nil
  then show ?case by simp
next
  case (Cons a xs)
  then show ?case
    by (cases "unit a") (auto simp: split_beta split: sum.splits)
qed

lemma sequential_loop_Inl:
  "snd (sequential_loop unit xs acc) = Inl e \<Longrightarrow>
     \<exists>k < length xs. snd (unit (xs ! k)) = Inl e
        \<and> (\<forall>j < k. \<not> isl (snd (unit (xs ! j))))
        \<and> fst (sequential_loop unit xs acc) = concat (map (\<lambda>a. fst (unit a)) (take (Suc k) xs))"
proof (induction xs arbitrary: acc)
  case Nil
  then show ?case by simp
next
  case (Cons a xs)
  show ?case
  proof (cases "unit a")
    case (Pair effs out)
    show ?thesis
    proof (cases out)
      case (Inl e')
      with Pair Cons.prems have "e' = e" by simp
      with Pair Inl show ?thesis by (intro exI [of _ 0]) simp
    next
      case (Inr r)
      with Pair Cons.prems have "snd (sequential_loop unit xs (acc @ [r])) = Inl e"
        by (simp add: split_beta)
      from Cons.IH [OF this] obtain k where k: "k < length xs" "snd (unit (xs ! k)) = Inl e"
        "\<forall>j < k. \<not> isl (snd (unit (xs ! j)))"
        "fst (sequential_loop unit xs (acc @ [r])) = concat (map (\<lambda>a. fst (unit a)) (take (Suc k) xs))"
        by blast
      have "\<forall>j < Suc k. \<not> isl (snd (unit ((a # xs) ! j)))"
        using k(3) Pair Inr by (auto simp: less_Suc_eq_0_disj)
      with k Pair Inr show ?thesis
        by (intro exI [of _ "Suc k"]) (simp add: split_beta)
    qed
  qed
qed

lemma fan_out_Inr_iff:
  "snd (fan_out unit finish par xs) = Inr rs \<longleftrightarrow> map (\<lambda>a. snd (unit a)) xs = map Inr rs"
  using sequential_loop_Inr_iff [of unit xs "[]" rs]
  by (auto simp: fan_out_def Let_def gather_Inr_iff split_beta comp_def)

lemma fan_out_Inl:
  "snd (fan_out unit finish par xs) = Inl e \<Longrightarrow> \<exists>k < length xs. snd (unit (xs ! k)) = Inl e"
proof (cases par)
  case True
  assume "snd (fan_out unit finish par xs) = Inl e"
  with True have "gather finish (map (\<lambda>a. snd (unit a)) xs) = Inl e"
    by (simp add: fan_out_def Let_def comp_def)
  from gather_Inl [OF this] show ?thesis by auto
next
  case False
  assume "snd (fan_out unit finish par xs) = Inl e"
  with False have "snd (sequential_loop unit xs []) = Inl e"
    by (simp add: fan_out_def split_beta)
  from sequential_loop_Inl [OF this] show ?thesis by blast
qed

lemma conduct_single_interview_analyst:
  "snd (conduct_single_interview m a t) = Inr r \<Longrightarrow> analyst r = a"
  by (auto simp: conduct_single_interview_def Let_def split: sum.splits if_splits)

text \<open>
  Claim C1, as the code has it. The stage returns a list exactly when every unit returns
  a result, and the list is then the units' results in the order of the analysts (so it
  is as long as the analyst list). When a unit raises, the stage raises the error of a
  failing unit and returns no list: there is no result object that carries an error.
  This holds in both modes and for every behaviour of the collaborators.
\<close>

theorem conduct_interviews_all_or_nothing:
  "(snd (conduct_interviews m finish analyst_list task) = Inr rs \<longleftrightarrow>
      map (\<lambda>a. snd (conduct_single_interview m a (max_interview_turns task))) analyst_list
        = map Inr rs)
   \<and> (snd (conduct_interviews m finish analyst_list task) = Inl e \<longrightarrow>
        (\<exists>k < length analyst_list.
           snd (conduct_single_interview m (analyst_list ! k) (max_interview_turns task)) = Inl e))"
  using fan_out_Inl [of "\<lambda>a. conduct_single_interview m a (max_interview_turns task)" finish
      "parallel_interviews task" analyst_list e]
  by (simp add: conduct_interviews_def fan_out_Inr_iff)

text \<open>
  The effects of a sequential stage are the effects of its units, one unit after the
  other in the order of the analysts: all of them when every unit succeeds, and those up
  to and including the first failing unit otherwise.
\<close>

lemma conduct_interviews_sequential_ok:
  assumes "\<not> parallel_interviews task"
    and "snd (conduct_interviews m finish analyst_list task) = Inr rs"
  shows "fst (conduct_interviews m finish analyst_list task) =
           map Ev (concat (map (\<lambda>a. fst (conduct_single_interview m a (max_interview_turns task)))
                            analyst_list))"
  using assms
    sequential_loop_effects_Inr
      [of "\<lambda>a. conduct_single_interview m a (max_interview_turns task)" analyst_list "[]" rs]
  by (simp add: conduct_interviews_def fan_out_def split_beta)

lemma conduct_interviews_sequential_fail:
  assumes "\<not> parallel_interviews task"
    and "snd (conduct_interviews m finish analyst_list task) = Inl e"
  shows "\<exists>k < length analyst_list.
            snd (conduct_single_interview m (analyst_list ! k) (max_interview_turns task)) = Inl e
          \<and> (\<forall>j < k. \<not> isl (snd (conduct_single_interview m (analyst_list ! j)
                                    (max_interview_turns task))))
          \<and> fst (conduct_interviews m finish analyst_list task) =
              map Ev (concat (map (\<lambda>a. fst (conduct_single_interview m a
                                                (max_interview_turns task)))
                               (take (Suc k) analyst_list)))"
proof -
  from assms have "snd (sequential_loop
      (\<lambda>a. conduct_single_interview m a (max_interview_turns task)) analyst_list []) = Inl e"
    by (simp add: conduct_interviews_def fan_out_def split_beta)
  from sequential_loop_Inl [OF this] obtain k where "k < length analyst_list"
    "snd (conduct_single_interview m (analyst_list ! k) (max_interview_turns task)) = Inl e"
    "\<forall>j < k. \<not> isl (snd (conduct_single_interview m (analyst_list ! j) (max_interview_turns task)))"
    "fst (sequential_loop (\<lambda>a. conduct_single_interview m a (max_interview_turns task))
            analyst_list []) =
       concat (map (\<lambda>a. fst (conduct_single_interview m a (max_interview_turns task)))
                 (take (Suc k) analyst_list))"
    by blast
  with assms(1) show ?thesis
    by (intro exI [of _ k]) (simp add: conduct_interviews_def fan_out_def split_beta)
qed

lemma conduct_interviews_aligned:
  assumes "snd (conduct_interviews m finish analyst_list task) = Inr rs"
  shows "length rs = length analyst_list
       \<and> (\<forall>i < length analyst_list.
            analyst (rs ! i) = analyst_list ! i
          \<and> snd (conduct_single_interview m (analyst_list ! i) (max_interview_turns task))
              = Inr (rs ! i))"
proof -
  from assms have eq:
    "map (\<lambda>a. snd (conduct_single_interview m a (max_interview_turns task))) analyst_list
       = map Inr rs"
    by (simp add: conduct_interviews_def fan_out_Inr_iff)
  then have len: "length rs = length analyst_list"
    by (metis length_map)
  have "analyst (rs ! i) = analyst_list ! i
          \<and> snd (conduct_single_interview m (analyst_list ! i) (max_interview_turns task))
              = Inr (rs ! i)" if i: "i < length analyst_list" for i
  proof -
    from eq i len
    have "snd (conduct_single_interview m (analyst_list ! i) (max_interview_turns task))
            = Inr (rs ! i)"
      by (metis nth_map)
    then show ?thesis by (simp add: conduct_single_interview_analyst)
  qed
  with len show ?thesis by simp
qed

text \<open>
  Claim C6. Without \<^verbatim>\<open>parallel_interviews\<close> the interviews run strictly in input order,
  each to its end before the next starts: the trace of the stage is the concatenation, in
  input order, of the complete effect lists of the units (up to the first unit that
  raises, whose predecessors all succeeded). In both modes, and whatever the times at
  which the units end, a returned list is index-aligned with the analysts: it has their
  length, and entry \<open>i\<close> is the result of the interview of analyst \<open>i\<close> and names that
  analyst.
\<close>

theorem conduct_interviews_order:
  "(\<not> parallel_interviews task \<longrightarrow>
      (\<forall>rs. snd (conduct_interviews m finish analyst_list task) = Inr rs \<longrightarrow>
         fst (conduct_interviews m finish analyst_list task) =
           map Ev (concat (map (\<lambda>a. fst (conduct_single_interview m a (max_interview_turns task)))
                            analyst_list)))
    \<and> (\<forall>e. snd (conduct_interviews m finish analyst_list task) = Inl e \<longrightarrow>
         (\<exists>k < length analyst_list.
            snd (conduct_single_interview m (analyst_list ! k) (max_interview_turns task)) = Inl e
          \<and> (\<forall>j < k. \<not> isl (snd (conduct_single_interview m (analyst_list ! j)
                                    (max_interview_turns task))))
          \<and> fst (conduct_interviews m finish analyst_list task) =
              map Ev (concat (map (\<lambda>a. fst (conduct_single_interview m a
                                                (max_interview_turns task)))
                               (take (Suc k) analyst_list))))))
   \<and> (\<forall>rs. snd (conduct_interviews m finish analyst_list task) = Inr rs \<longrightarrow>
         length rs = length analyst_list
       \<and> (\<forall>i < length analyst_list.
            analyst (rs ! i) = analyst_list ! i
          \<and> snd (conduct_single_interview m (analyst_list ! i) (max_interview_turns task))
              = Inr (rs ! i)))"
  using conduct_interviews_sequential_ok [of task m finish analyst_list]
    conduct_interviews_sequential_fail [of task m finish analyst_list]
    conduct_interviews_aligned [of m finish analyst_list task]
  by blast


text \<open>
  Claim C1 as stated fails. Of three analysts the second one's interview raises; in
  parallel mode and in sequential mode the stage raises that error instead of returning
  three results with an error marker in the second slot.
\<close>

theorem unit_failure_aborts_stage:
  "snd (conduct_interviews (scripted_llm ''Bob'') id three_analysts (task_X True))
     = Inl (Failure ''model unavailable'')
   \<and> snd (conduct_interviews (scripted_llm ''Bob'') id three_analysts (task_X False))
     = Inl (Failure ''model unavailable'')"
  by code_simp

text \<open>
  The theorem of claim C1 at work: with three successful interviews the stage returns the
  three results in order; with a failing one it raises, and a unit with that error exists.
\<close>

theorem conduct_interviews_all_or_nothing_witness:
  "snd (conduct_interviews (scripted_llm []) id three_analysts (task_X True))
     = Inr [interview_of ''Ada'', interview_of ''Bob'', interview_of ''Cyd'']
   \<and> snd (conduct_interviews (scripted_llm ''Bob'') id three_analysts (task_X True))
     = Inl (Failure ''model unavailable'')
   \<and> (\<exists>k. k < length three_analysts \<and>
         snd (conduct_single_interview (scripted_llm ''Bob'') (three_analysts ! k)
                (max_interview_turns (task_X True))) = Inl (Failure ''model unavailable''))"
proof -
  have ok: "map (\<lambda>a. snd (conduct_single_interview (scripted_llm []) a
                           (max_interview_turns (task_X True)))) three_analysts
            = map Inr [interview_of ''Ada'', interview_of ''Bob'', interview_of ''Cyd'']"
    by code_simp
  have bad: "snd (conduct_interviews (scripted_llm ''Bob'') id three_analysts (task_X True))
               = Inl (Failure ''model unavailable'')"
    by code_simp
  from ok bad
    conduct_interviews_all_or_nothing [of "scripted_llm []" id three_analysts "task_X True"
      "[interview_of ''Ada'', interview_of ''Bob'', interview_of ''Cyd'']"]
    conduct_interviews_all_or_nothing [of "scripted_llm ''Bob''" id three_analysts "task_X True"
      _ "Failure ''model unavailable''"]
  show ?thesis by blast
qed

text \<open>
  The theorem of claim C6 at work: a sequential stage over three analysts performs the
  two team runs of the first, then those of the second, then those of the third; and a
  parallel stage whose units end in reverse order returns the same index-aligned list.
\<close>

theorem conduct_interviews_order_witness:
  "\<not> parallel_interviews (task_X False)
   \<and> snd (conduct_interviews (scripted_llm []) id three_analysts (task_X False))
       = Inr [interview_of ''Ada'', interview_of ''Bob'', interview_of ''Cyd'']
   \<and> fst (conduct_interviews (scripted_llm []) id three_analysts (task_X False))
       = map Ev (effects_of ''Ada'' @ effects_of ''Bob'' @ effects_of ''Cyd'')
   \<and> snd (conduct_interviews (scripted_llm []) (\<lambda>i. 3 - i) three_analysts (task_X True))
       = Inr [interview_of ''Ada'', interview_of ''Bob'', interview_of ''Cyd'']
   \<and> length [interview_of ''Ada'', interview_of ''Bob'', interview_of ''Cyd'']
       = length three_analysts
   \<and> analyst ([interview_of ''Ada'', interview_of ''Bob'', interview_of ''Cyd''] ! 2)
       = three_analysts ! 2"
proof -
  have seq: "\<not> parallel_interviews (task_X False)"
    by (simp add: task_X_def)
  have r: "snd (conduct_interviews (scripted_llm []) id three_analysts (task_X False))
       = Inr [interview_of ''Ada'', interview_of ''Bob'', interview_of ''Cyd'']"
    by code_simp
  have p: "snd (conduct_interviews (scripted_llm []) (\<lambda>i. 3 - i) three_analysts (task_X True))
       = Inr [interview_of ''Ada'', interview_of ''Bob'', interview_of ''Cyd'']"
    by code_simp
  have u: "concat (map (\<lambda>a. fst (conduct_single_interview (scripted_llm []) a
                                  (max_interview_turns (task_X False)))) three_analysts)
           = effects_of ''Ada'' @ effects_of ''Bob'' @ effects_of ''Cyd''"
    by code_simp
  have l: "(2::nat) < length three_analysts"
    by (simp add: three_analysts_def)
  from seq r u l
    conduct_interviews_order [of "task_X False" "scripted_llm []" id three_analysts]
  have "fst (conduct_interviews (scripted_llm []) id three_analysts (task_X False))
       = map Ev (effects_of ''Ada'' @ effects_of ''Bob'' @ effects_of ''Cyd'')"
    and "length [interview_of ''Ada'', interview_of ''Bob'', interview_of ''Cyd'']
       = length three_analysts"
    and "analyst ([interview_of ''Ada'', interview_of ''Bob'', interview_of ''Cyd''] ! 2)
       = three_analysts ! 2"
    by metis+
  with seq r p show ?thesis by blast
qed



section \<open>Properties of the analyst-count request\<close>

text \<open>How the messages of a run begin, read off the first phases of its body.\<close>

lemma exec_bind_Raise: "exec_bind (tr, Raise e) f = (tr, Raise e)"
  by (simp add: exec_bind_def)

lemma prefix_bind_sends:
  "prefix ys (fst (f ())) \<Longrightarrow> prefix (xs @ ys) (fst (exec_bind (sends xs) f))"
  by (simp add: exec_bind_def sends_def split_beta)

lemma prefix_bind_Ok:
  "x = (tr, Ok a) \<Longrightarrow> prefix ys (fst (f a)) \<Longrightarrow> prefix (tr @ ys) (fst (exec_bind x f))"
  by (simp add: exec_bind_def split_beta)

lemma prefix_sends_first: "prefix [x] (fst (exec_bind (sends (x # xs)) f))"
  by (simp add: exec_bind_def sends_def split_beta)

lemma research_body_reply:
  assumes "wait_for_response ev = Inr response"
  shows "prefix [Ev (Progress Setup), Ev (AnalystCountRequest (max_analysts task)),
           Ev (Progress (GeneratingAnalysts (dict_get response ''count'' (max_analysts task))))]
          (fst (research_body m finish task (ev # rest)))"
proof -
  have g: "get_analyst_count (max_analysts task) (ev # rest)
        = ([Ev (AnalystCountRequest (max_analysts task))],
           Ok (dict_get response ''count'' (max_analysts task), rest))"
    using assms by (simp add: get_analyst_count_def)
  show ?thesis
    unfolding research_body_def
    apply (rule prefix_bind_sends [of "[_, _]" _ "[_]", simplified])
    apply (rule prefix_bind_Ok [OF g, of "[_]", simplified])
    apply (simp only: Let_def prod.case)
    apply (rule prefix_sends_first)
    done
qed

lemma run_prefix: "prefix (fst (research_body m finish task evs)) (fst (run_interactive_research m finish task evs))"
  by (auto simp: run_interactive_research_def split: prod.splits res.splits)

text \<open>
  Claim C10. When the operator's reply to the analyst-count request arrives in time and
  its data has no \<^verbatim>\<open>count\<close> field, \<^verbatim>\<open>get_analyst_count\<close> returns the default it was
  called with: it neither raises nor waits on. The run then goes on exactly as if the
  operator had replied with that default, and its next message announces the generation
  of the default number of analysts.
\<close>

theorem analyst_count_without_count_field:
  assumes "map_of response ''count'' = None" and "t < response_timeout"
  shows "get_analyst_count default_count (Reply t response # rest)
           = ([Ev (AnalystCountRequest default_count)], Ok (default_count, rest))
       \<and> run_interactive_research m finish task (Reply t response # rest)
           = run_interactive_research m finish task (Reply t [(''count'', max_analysts task)] # rest)
       \<and> prefix [Ev (Progress Setup), Ev (AnalystCountRequest (max_analysts task)),
                  Ev (Progress (GeneratingAnalysts (max_analysts task)))]
            (fst (run_interactive_research m finish task (Reply t response # rest)))"
proof -
  from assms have w: "wait_for_response (Reply t response) = Inr response" by simp
  from assms(1) have d: "dict_get response ''count'' (max_analysts task) = max_analysts task"
    by (simp add: dict_get_def)
  have 1: "get_analyst_count default_count (Reply t response # rest)
           = ([Ev (AnalystCountRequest default_count)], Ok (default_count, rest))"
    using assms by (simp add: get_analyst_count_def dict_get_def)
  have "get_analyst_count (max_analysts task) (Reply t response # rest)
          = get_analyst_count (max_analysts task) (Reply t [(''count'', max_analysts task)] # rest)"
    using assms by (simp add: get_analyst_count_def dict_get_def)
  then have 2: "research_body m finish task (Reply t response # rest)
           = research_body m finish task (Reply t [(''count'', max_analysts task)] # rest)"
    by (simp only: research_body_def)
  have 3: "prefix [Ev (Progress Setup), Ev (AnalystCountRequest (max_analysts task)),
                  Ev (Progress (GeneratingAnalysts (max_analysts task)))]
            (fst (run_interactive_research m finish task (Reply t response # rest)))"
  proof -
    have "prefix [Ev (Progress Setup), Ev (AnalystCountRequest (max_analysts task)),
                  Ev (Progress (GeneratingAnalysts (max_analysts task)))]
            (fst (research_body m finish task (Reply t response # rest)))"
      using research_body_reply [OF w, of task m finish rest] by (simp only: d)
    then show ?thesis
      using run_prefix [of m finish task "Reply t response # rest"]
      by (rule prefix_order.trans)
  qed
  from 2 have "run_interactive_research m finish task (Reply t response # rest)
           = run_interactive_research m finish task (Reply t [(''count'', max_analysts task)] # rest)"
    by (simp only: run_interactive_research_def)
  with 1 3 show ?thesis by blast
qed

text \<open>The theorem of claim C10 at work, on a reply that holds a comment and no count.\<close>

theorem analyst_count_without_count_field_witness:
  "map_of [(''comment'', JStr ''hello'')] ''count'' = None \<and> (1 :: nat) < response_timeout
   \<and> get_analyst_count (JInt 2) [Reply 1 [(''comment'', JStr ''hello'')]]
        = ([Ev (AnalystCountRequest (JInt 2))], Ok (JInt 2, []))
   \<and> prefix [Ev (Progress Setup), Ev (AnalystCountRequest (JInt 2)),
              Ev (Progress (GeneratingAnalysts (JInt 2)))]
        (fst (run_interactive_research (scripted_llm []) id (task_X True)
                [Reply 1 [(''comment'', JStr ''hello'')]]))"
proof -
  have a: "map_of [(''comment'', JStr ''hello'')] ''count'' = None" by simp
  have b: "(1 :: nat) < response_timeout" by (simp add: response_timeout_def)
  have t: "max_analysts (task_X True) = JInt 2" by (simp add: task_X_def)
  from analyst_count_without_count_field
         [OF a b, of "JInt 2" "[]" "scripted_llm []" id "task_X True"]
  have "get_analyst_count (JInt 2) [Reply 1 [(''comment'', JStr ''hello'')]]
        = ([Ev (AnalystCountRequest (JInt 2))], Ok (JInt 2, []))"
    and "prefix [Ev (Progress Setup), Ev (AnalystCountRequest (max_analysts (task_X True))),
              Ev (Progress (GeneratingAnalysts (max_analysts (task_X True))))]
        (fst (run_interactive_research (scripted_llm []) id (task_X True)
                [Reply 1 [(''comment'', JStr ''hello'')]]))"
    by blast+
  with a b show ?thesis unfolding t by blast
qed

text \<open>
  Claim C4, as the code has it. When no reply to the analyst-count request arrives within
  the 300 seconds (none at all, or one that comes too late), \<^verbatim>\<open>wait_for_response\<close>
  raises an \<^verbatim>\<open>HTTPException\<close> with status 408, \<^verbatim>\<open>get_analyst_count\<close> passes it on, and
  \<^verbatim>\<open>run_interactive_research\<close> ends the run with an error message: no analysts are
  generated, and the default count is not used.
\<close>

theorem analyst_count_timeout_fails:
  assumes "ev = Silence \<or> (\<exists>t response. ev = Reply t response \<and> response_timeout \<le> t)"
  shows "get_analyst_count default_count (ev # rest)
           = ([Ev (AnalystCountRequest default_count)], Raise (HTTPException 408))
       \<and> run_interactive_research m finish task (ev # rest)
           = ([Ev (Progress Setup), Ev (AnalystCountRequest (max_analysts task)),
               Ev (Error (HTTPException 408))], Failed (HTTPException 408))"
proof -
  from assms have "wait_for_response ev = Inl (HTTPException 408)" by auto
  then have g: "get_analyst_count d (ev # rest) = ([Ev (AnalystCountRequest d)], Raise (HTTPException 408))"
    for d
    by (simp add: get_analyst_count_def)
  have "research_body m finish task (ev # rest)
           = ([Ev (Progress Setup), Ev (AnalystCountRequest (max_analysts task))],
              Raise (HTTPException 408))"
    unfolding research_body_def g
    apply (subst exec_bind_Raise)
    apply (simp add: exec_bind_def sends_def)
    done
  then have "run_interactive_research m finish task (ev # rest)
           = ([Ev (Progress Setup), Ev (AnalystCountRequest (max_analysts task)),
               Ev (Error (HTTPException 408))], Failed (HTTPException 408))"
    by (simp add: run_interactive_research_def)
  with g show ?thesis by blast
qed

text \<open>The theorem of claim C4 at work, on a reply that arrives after 301 seconds.\<close>

theorem analyst_count_timeout_fails_witness:
  "response_timeout \<le> 301
   \<and> get_analyst_count (JInt 2) [Reply 301 [(''count'', JInt 4)]]
       = ([Ev (AnalystCountRequest (JInt 2))], Raise (HTTPException 408))
   \<and> run_interactive_research (scripted_llm []) id (task_X True) [Reply 301 [(''count'', JInt 4)]]
       = ([Ev (Progress Setup), Ev (AnalystCountRequest (JInt 2)),
           Ev (Error (HTTPException 408))], Failed (HTTPException 408))"
proof -
  have h: "response_timeout \<le> 301" by (simp add: response_timeout_def)
  then have "Reply 301 [(''count'', JInt 4)] = Silence
     \<or> (\<exists>t response. Reply 301 [(''count'', JInt 4)] = Reply t response \<and> response_timeout \<le> t)"
    by blast
  from analyst_count_timeout_fails [OF this, of "JInt 2" "[]" "scripted_llm []" id "task_X True"] h
  show ?thesis by (simp add: task_X_def)
qed


text \<open>
  Claim C4 as stated fails: with a silent operator the run sends the request and then an
  error message, and ends failed.
\<close>

theorem analyst_count_timeout_fails_run:
  "run_interactive_research (scripted_llm []) id (task_X True) [Silence]
     = ([Ev (Progress Setup), Ev (AnalystCountRequest (JInt 2)),
         Ev (Error (HTTPException 408))], Failed (HTTPException 408))"
  by code_simp

text \<open>
  Claim C5 at a failing input. The task asks for 2 analysts and the operator replies
  with a count of 11. \<^verbatim>\<open>get_analyst_count\<close> returns 11, the run announces the
  generation of 11 analysts and starts 11 interviews. The console dialogue of
  \<^verbatim>\<open>workflow.py\<close> refuses the same number and asks again.
\<close>

theorem analyst_count_not_clamped:
  "get_analyst_count (JInt 2) [reply_count 11]
     = ([Ev (AnalystCountRequest (JInt 2))], Ok (JInt 11, []))
   \<and> prefix [Ev (Progress Setup), Ev (AnalystCountRequest (JInt 2)),
              Ev (Progress (GeneratingAnalysts (JInt 11)))]
        (fst (run_interactive_research (scripted_llm []) id (task_X True) [reply_count 11]))
   \<and> List.member
        (fst (run_interactive_research (scripted_llm []) id (task_X True) [reply_count 11]))
        (Ev (Progress (StartingInterviews 11)))
   \<and> get_analyst_count_from_user (JInt 2) [''11'', ''4'']
     = ([AnalystCountHeader (JInt 2), InvalidRange], Ok (JInt 4, []))"
  by code_simp


section \<open>Properties of the research result\<close>

text \<open>
  Claim C9 at a failing input. The task asks for 2 analysts, the operator chooses 4,
  asks for a rewrite with the feedback \<open>add cost analysis\<close> and approves the second
  version. The workflow object then holds 5 analysts and 5 interviews, and the approved
  report is version 2, written from those 5 interviews; but the result lists the 4
  analysts and the 4 interviews of the first round. The interactive backend likewise
  reports 4 analysts and 4 interviews.
\<close>

theorem result_keeps_first_round_analysts:
  "(case snd (workflow_run_interactive_research (scripted_llm []) id (task_X True)
               [''4'', ''2'', ''2'', ''add cost analysis'', ''1''] init_workflow) of
      Ok (r, w) \<Rightarrow>
        length (analysts r) = 4 \<and> length (interviews r) = 4
        \<and> length (current_analysts w) = 5 \<and> length (current_interviews w) = 5
        \<and> length (report_versions w) = 2
        \<and> introduction r = ''FI''
        \<and> [(''main_content'', main_content r), (''introduction'', introduction r),
            (''conclusion'', conclusion r)] = report_versions w ! 1
    | _ \<Rightarrow> False)
   \<and> (case snd (run_interactive_research (scripted_llm []) id (task_X True)
                  [reply_count 4, reply_feedback ''add cost analysis'', reply_approve]) of
        Completed r \<Rightarrow> length (result_analysts r) = 4 \<and> interview_count r = 4
      | _ \<Rightarrow> False)"
  by code_simp



section \<open>Properties of the approval loops\<close>

lemma rewrite_with_feedback_versions:
  "rewrite_with_feedback m finish topic_str feedback w = Inr (r, w')
     \<Longrightarrow> report_versions w' = report_versions w"
  by (auto simp: rewrite_with_feedback_def Let_def split: sum.splits)

lemma finish_rewrite_Continue:
  "finish_rewrite msgs st = (msgs', Continue st') \<Longrightarrow>
     version_no st' = version_no st + 1 \<and> workflow st' = workflow st
     \<and> new_report st = Some (current_report st')
     \<and> msgs' = msgs @ [Progress (RewriteCompleted (version_no st + 1))]"
  by (auto simp: finish_rewrite_def split: option.splits)

lemma report_approval_step_Continue:
  assumes "report_approval_step m finish topic_str st ev = (msgs, Continue st')"
  shows "report_versions (workflow st') = report_versions (workflow st)
       \<and> (if rewrite_decision ev
           then version_no st' = version_no st + 1
              \<and> msgs \<noteq> [] \<and> last msgs = Progress (RewriteCompleted (version_no st + 1))
           else st' = st \<and> msgs = [])"
proof (cases "wait_for_response ev")
  case (Inl e)
  with assms show ?thesis by (simp add: report_approval_step_def)
next
  case (Inr response)
  show ?thesis
  proof (cases "dict_get response ''action'' JNull = JStr ''rewrite''")
    case False
    with Inr assms show ?thesis
      by (auto simp: report_approval_step_def rewrite_decision_def Let_def split: if_splits)
  next
    case True
    with Inr have rd: "rewrite_decision ev" by (simp add: rewrite_decision_def)
    from True Inr assms show ?thesis
      unfolding report_approval_step_def
      by (auto simp: rd Let_def split: if_splits sum.splits
          dest!: finish_rewrite_Continue rewrite_with_feedback_versions)
  qed
qed

lemma report_approval_loop_Presenting:
  "snd (report_approval_loop m finish topic_str evs st) = Presenting st' \<Longrightarrow>
     version_no st' = version_no st + length (filter rewrite_decision evs)
     \<and> report_versions (workflow st') = report_versions (workflow st)"
proof (induction evs arbitrary: st)
  case Nil
  then show ?case by simp
next
  case (Cons ev evs)
  obtain msgs r where step: "report_approval_step m finish topic_str st ev = (msgs, r)"
    by (cases "report_approval_step m finish topic_str st ev")
  show ?case
  proof (cases r)
    case (Continue st1)
    with step Cons.prems have "snd (report_approval_loop m finish topic_str evs st1) = Presenting st'"
      by (simp add: split_beta)
    from Cons.IH [OF this] report_approval_step_Continue [OF step [unfolded Continue]]
    show ?thesis by (auto split: if_splits)
  next
    case (Return x)
    with step Cons.prems show ?thesis by simp
  next
    case (Raised e)
    with step Cons.prems show ?thesis by simp
  qed
qed

lemma report_approval_step_approve:
  assumes "wait_for_response ev = Inr response"
    and "dict_get response ''action'' JNull = JStr ''approve''"
  shows "report_approval_step m finish topic_str st ev
           = ([Progress ReportApproved], Return (current_report st))"
  using assms by (simp add: report_approval_step_def)

lemma report_approval_step_view_full:
  assumes "wait_for_response ev = Inr response"
    and "dict_get response ''action'' JNull = JStr ''view_full''"
  shows "report_approval_step m finish topic_str st ev = ([], Continue st)"
  using assms by (simp add: report_approval_step_def)

lemma report_approval_step_unrecognised:
  assumes "wait_for_response ev = Inr response"
    and "dict_get response ''action'' JNull \<noteq> JStr ''approve''"
    and "dict_get response ''action'' JNull \<noteq> JStr ''rewrite''"
  shows "report_approval_step m finish topic_str st ev = ([], Continue st)"
  using assms by (simp add: report_approval_step_def)

lemma report_approval_step_Return:
  "report_approval_step m finish topic_str st ev = (msgs, Return r) \<Longrightarrow> r = current_report st"
  by (auto simp: report_approval_step_def Let_def finish_rewrite_def
      split: sum.splits if_splits option.splits prod.splits)

lemma report_approval_loop_Approved:
  "snd (report_approval_loop m finish topic_str evs st) = Approved r w rest \<Longrightarrow>
     \<exists>pre ev st'. evs = pre @ ev # rest
        \<and> snd (report_approval_loop m finish topic_str pre st) = Presenting st'
        \<and> r = current_report st' \<and> w = workflow st'"
proof (induction evs arbitrary: st)
  case Nil
  then show ?case by simp
next
  case (Cons ev evs)
  obtain msgs x where step: "report_approval_step m finish topic_str st ev = (msgs, x)"
    by (cases "report_approval_step m finish topic_str st ev")
  show ?case
  proof (cases x)
    case (Continue st1)
    with step Cons.prems
    have "snd (report_approval_loop m finish topic_str evs st1) = Approved r w rest"
      by (simp add: split_beta)
    from Cons.IH [OF this] obtain pre ev' st' where p: "evs = pre @ ev' # rest"
      "snd (report_approval_loop m finish topic_str pre st1) = Presenting st'"
      "r = current_report st'" "w = workflow st'"
      by blast
    from p(2) step Continue
    have "snd (report_approval_loop m finish topic_str (ev # pre) st) = Presenting st'"
      by (simp add: split_beta)
    with p show ?thesis
      by (intro exI [of _ "ev # pre"] exI [of _ ev'] exI [of _ st']) simp
  next
    case (Return r')
    with step Cons.prems have "rest = evs" "w = workflow st" "r' = r" by simp_all
    moreover from step Return have "r' = current_report st"
      by (simp add: report_approval_step_Return)
    ultimately show ?thesis
      by (intro exI [of _ "[]"] exI [of _ ev] exI [of _ st]) simp
  next
    case (Raised e)
    with step Cons.prems show ?thesis by simp
  qed
qed

lemma append_version_Again:
  "append_version out0 r w rest0 = (out, Again st' rest) \<Longrightarrow>
     report_versions (self st') = report_versions w @ [report_parts st'] \<and> rest = rest0
     \<and> out = out0 @ [Rewritten (Suc (length (report_versions w)))]"
  by (auto simp: append_version_def Let_def)

lemma rewrite_branch_Again:
  "rewrite_branch m finish topic_str st inp = (out, Again st' rest) \<Longrightarrow>
     report_versions (self st') = report_versions (self st) @ [report_parts st']"
  by (auto simp: rewrite_branch_def Let_def
      split: list.splits if_splits sum.splits prod.splits
      dest!: append_version_Again rewrite_with_feedback_versions)

lemma review_iteration_Again:
  assumes "review_iteration m finish topic_str st inp = (out, Again st' rest)"
  shows "(if hd inp = ''2''
          then report_versions (self st') = report_versions (self st) @ [report_parts st']
          else st' = st)"
  using assms
  by (auto simp: review_iteration_def Let_def show_full_report_def
      split: list.splits if_splits prod.splits res.splits option.splits
      dest!: rewrite_branch_Again)

lemma review_iteration_inv:
  assumes "review_iteration m finish topic_str st inp = (out, Again st' rest)"
    and "review_inv st"
  shows "review_inv st' \<and> prefix (report_versions (self st)) (report_versions (self st'))"
  using review_iteration_Again [OF assms(1)] assms(2)
  by (auto simp: review_inv_def split: if_splits)

lemma review_iteration_NeedInput:
  "review_iteration m finish topic_str st inp = (out, NeedInput st') \<Longrightarrow> st' = st"
  by (auto simp: review_iteration_def Let_def show_full_report_def rewrite_branch_def
        append_version_def
      split: list.splits if_splits prod.splits res.splits option.splits sum.splits)

lemma review_iteration_Accept:
  "review_iteration m finish topic_str st inp = (out, Accept r w rest) \<Longrightarrow>
     r = report_parts st \<and> w = self st \<and> inp = ''1'' # rest"
  by (auto simp: review_iteration_def Let_def show_full_report_def rewrite_branch_def
        append_version_def
      split: list.splits if_splits prod.splits res.splits option.splits sum.splits)

lemma review_loop_inv:
  "review_inv st \<Longrightarrow>
     (case snd (review_loop m finish topic_str st inp) of
        Reviewed r w rest \<Rightarrow>
          report_versions w \<noteq> [] \<and> r = last (report_versions w)
          \<and> prefix (report_versions (self st)) (report_versions w)
      | Stopped e \<Rightarrow> True
      | AwaitingInput st' \<Rightarrow>
          review_inv st' \<and> prefix (report_versions (self st)) (report_versions (self st')))"
proof (induction m finish topic_str st inp rule: review_loop.induct)
  case (1 m finish topic_str st inp)
  obtain out x where step: "review_iteration m finish topic_str st inp = (out, x)"
    by (cases "review_iteration m finish topic_str st inp")
  show ?case
  proof (cases x)
    case (Again st1 rest)
    from review_iteration_inv [OF step [unfolded Again] "1.prems"]
    have inv1: "review_inv st1"
      and pre: "prefix (report_versions (self st)) (report_versions (self st1))"
      by simp_all
    from "1.IH" [OF step [unfolded Again, symmetric] refl inv1]
    have "case snd (review_loop m finish topic_str st1 rest) of
        Reviewed r w rest \<Rightarrow>
          report_versions w \<noteq> [] \<and> r = last (report_versions w)
          \<and> prefix (report_versions (self st1)) (report_versions w)
      | Stopped e \<Rightarrow> True
      | AwaitingInput st' \<Rightarrow>
          review_inv st' \<and> prefix (report_versions (self st1)) (report_versions (self st'))" .
    with pre step Again show ?thesis
      by (subst review_loop.simps)
        (auto simp: split_beta split: review_end.splits dest: prefix_order.trans)
  next
    case (Accept r w rest)
    with step review_iteration_Accept [OF step [unfolded Accept]] "1.prems" show ?thesis
      by (subst review_loop.simps) (simp add: review_inv_def)
  next
    case (Abort e)
    with step show ?thesis by (subst review_loop.simps) simp
  next
    case (NeedInput st1)
    with step review_iteration_NeedInput [OF step [unfolded NeedInput]] "1.prems" show ?thesis
      by (subst review_loop.simps) simp
  qed
qed

lemma get_final_report_approval_inv:
  "(case get_final_report_approval m finish topic_str parts inp w of
      (out, e) \<Rightarrow>
        hd out = ReviewHeader (Suc (length (report_versions w))) parts
        \<and> (case e of
             Reviewed r w' rest \<Rightarrow>
               r = last (report_versions w')
               \<and> prefix (report_versions w @ [parts]) (report_versions w')
           | Stopped err \<Rightarrow> True
           | AwaitingInput st' \<Rightarrow>
               report_parts st' = last (report_versions (self st'))
               \<and> prefix (report_versions w @ [parts]) (report_versions (self st'))))"
proof -
  let ?st = "\<lparr>self = w\<lparr>report_versions := report_versions w @ [parts],
                         current_report_parts := parts\<rparr>, report_parts = parts\<rparr>"
  have "review_inv ?st" by (simp add: review_inv_def)
  from review_loop_inv [OF this, of m finish topic_str inp]
  show ?thesis
    by (auto simp: get_final_report_approval_def Let_def split_beta review_inv_def
        split: review_end.splits)
qed

lemma review_iteration_approve:
  "review_iteration m finish topic_str st (''1'' # rest) =
     ([Menu (if length (report_versions (self st)) > 1 then 4 else 3),
       ApprovedWith (length (report_versions (self st)))],
      Accept (report_parts st) (self st) rest)"
  by (simp add: review_iteration_def Let_def)

lemma review_iteration_view_full:
  "missing_key (report_parts st) = None \<Longrightarrow>
   review_iteration m finish topic_str st (''3'' # line # rest) =
     ([Menu (if length (report_versions (self st)) > 1 then 4 else 3),
       FullReport (report_parts st)],
      Again st rest)"
  by (simp add: review_iteration_def Let_def show_full_report_def)

lemma get_report_approval_Presenting:
  "snd (get_report_approval m finish topic_str parts evs w) = Presenting st' \<Longrightarrow>
     version_no st' = 1 + length (filter rewrite_decision evs)
     \<and> report_versions (workflow st') = report_versions w"
  by (auto simp: get_report_approval_def dest!: report_approval_loop_Presenting)

lemma get_report_approval_Approved:
  assumes "snd (get_report_approval m finish topic_str parts evs w) = Approved r w' rest"
  shows "\<exists>pre ev st'. evs = pre @ ev # rest
        \<and> snd (get_report_approval m finish topic_str parts pre w) = Presenting st'
        \<and> r = current_report st' \<and> report_versions w' = report_versions w"
proof -
  from assms
  have "snd (report_approval_loop m finish topic_str evs
          \<lparr>version_no = 1, current_report = parts, new_report = None, workflow = w\<rparr>)
        = Approved r w' rest"
    by (simp only: get_report_approval_def)
  from report_approval_loop_Approved [OF this]
  obtain pre ev st' where p: "evs = pre @ ev # rest"
    "snd (report_approval_loop m finish topic_str pre
          \<lparr>version_no = 1, current_report = parts, new_report = None, workflow = w\<rparr>)
       = Presenting st'"
    "r = current_report st'" "w' = workflow st'"
    by blast
  from p(2) have q: "snd (get_report_approval m finish topic_str parts pre w) = Presenting st'"
    by (simp only: get_report_approval_def)
  from get_report_approval_Presenting [OF q] have "report_versions (workflow st') = report_versions w"
    by simp
  with p(1,3,4) q show ?thesis by blast
qed

text \<open>
  Claim C7, as the code has it. In the console dialogue (\<^verbatim>\<open>_get_final_report_approval\<close>)
  the version number is the length of the stored history. The dialogue opens by
  appending the first report, so a fresh workflow starts at version 1; an iteration that
  continues either was a rewrite (choice \<^verbatim>\<open>2\<close>) and has appended exactly one entry, the
  new report under review, or has changed nothing (as a look at the full report does);
  approving returns the report under review, which is at all times the last entry of the
  history. In the loop of the backend (\<^verbatim>\<open>get_report_approval\<close>) the version counter
  starts at 1 and an iteration that continues has added exactly 1 to it if the reply was
  a rewrite decision and has changed nothing otherwise, so the counter is 1 plus the
  number of rewrite decisions so far; approving returns the current report of the state
  the loop is in, and a \<^verbatim>\<open>view_full\<close> reply changes nothing. This loop stores no history:
  \<^verbatim>\<open>report_versions\<close> stays as it was.
\<close>

theorem approval_loop_versions:
  "review_iteration m finish topic_str st (''1'' # rest) =
     ([Menu (if length (report_versions (self st)) > 1 then 4 else 3),
       ApprovedWith (length (report_versions (self st)))],
      Accept (report_parts st) (self st) rest)
   \<and> (missing_key (report_parts st) = None \<longrightarrow>
        review_iteration m finish topic_str st (''3'' # line # rest) =
          ([Menu (if length (report_versions (self st)) > 1 then 4 else 3),
            FullReport (report_parts st)],
           Again st rest))
   \<and> (\<forall>out st' rest'.
        review_iteration m finish topic_str st inp = (out, Again st' rest') \<longrightarrow>
          (if hd inp = ''2''
           then report_versions (self st') = report_versions (self st) @ [report_parts st']
           else st' = st))
   \<and> (case get_final_report_approval m finish topic_str parts inp w of
        (out, e) \<Rightarrow>
          hd out = ReviewHeader (Suc (length (report_versions w))) parts
          \<and> (case e of
               Reviewed r w' rest' \<Rightarrow>
                 r = last (report_versions w')
                 \<and> prefix (report_versions w @ [parts]) (report_versions w')
             | Stopped err \<Rightarrow> True
             | AwaitingInput st' \<Rightarrow>
                 report_parts st' = last (report_versions (self st'))
                 \<and> prefix (report_versions w @ [parts]) (report_versions (self st'))))
   \<and> (\<forall>msgs st'.
        report_approval_step m finish topic_str ast ev = (msgs, Continue st') \<longrightarrow>
          report_versions (workflow st') = report_versions (workflow ast)
          \<and> (if rewrite_decision ev then version_no st' = version_no ast + 1 else st' = ast))
   \<and> (\<forall>response.
        wait_for_response ev = Inr response \<longrightarrow>
          (dict_get response ''action'' JNull = JStr ''approve'' \<longrightarrow>
             report_approval_step m finish topic_str ast ev
               = ([Progress ReportApproved], Return (current_report ast)))
          \<and> (dict_get response ''action'' JNull = JStr ''view_full'' \<longrightarrow>
               report_approval_step m finish topic_str ast ev = ([], Continue ast)))
   \<and> (\<forall>st'.
        snd (get_report_approval m finish topic_str parts evs w) = Presenting st' \<longrightarrow>
          version_no st' = 1 + length (filter rewrite_decision evs)
          \<and> report_versions (workflow st') = report_versions w)
   \<and> (\<forall>r w' rest'.
        snd (get_report_approval m finish topic_str parts evs w) = Approved r w' rest' \<longrightarrow>
          (\<exists>pre ev' st'. evs = pre @ ev' # rest'
             \<and> snd (get_report_approval m finish topic_str parts pre w) = Presenting st'
             \<and> r = current_report st' \<and> report_versions w' = report_versions w))"
proof (intro conjI)
  show "review_iteration m finish topic_str st (''1'' # rest) =
     ([Menu (if length (report_versions (self st)) > 1 then 4 else 3),
       ApprovedWith (length (report_versions (self st)))],
      Accept (report_parts st) (self st) rest)"
    by (rule review_iteration_approve)
  show "missing_key (report_parts st) = None \<longrightarrow>
        review_iteration m finish topic_str st (''3'' # line # rest) =
          ([Menu (if length (report_versions (self st)) > 1 then 4 else 3),
            FullReport (report_parts st)],
           Again st rest)"
    by (simp add: review_iteration_view_full)
  show "\<forall>out st' rest'.
        review_iteration m finish topic_str st inp = (out, Again st' rest') \<longrightarrow>
          (if hd inp = ''2''
           then report_versions (self st') = report_versions (self st) @ [report_parts st']
           else st' = st)"
  proof (intro allI impI)
    fix out st' rest'
    assume "review_iteration m finish topic_str st inp = (out, Again st' rest')"
    then show "if hd inp = ''2''
           then report_versions (self st') = report_versions (self st) @ [report_parts st']
           else st' = st"
      by (rule review_iteration_Again)
  qed
  show "case get_final_report_approval m finish topic_str parts inp w of
        (out, e) \<Rightarrow>
          hd out = ReviewHeader (Suc (length (report_versions w))) parts
          \<and> (case e of
               Reviewed r w' rest' \<Rightarrow>
                 r = last (report_versions w')
                 \<and> prefix (report_versions w @ [parts]) (report_versions w')
             | Stopped err \<Rightarrow> True
             | AwaitingInput st' \<Rightarrow>
                 report_parts st' = last (report_versions (self st'))
                 \<and> prefix (report_versions w @ [parts]) (report_versions (self st')))"
    by (rule get_final_report_approval_inv)
  show "\<forall>msgs st'.
        report_approval_step m finish topic_str ast ev = (msgs, Continue st') \<longrightarrow>
          report_versions (workflow st') = report_versions (workflow ast)
          \<and> (if rewrite_decision ev then version_no st' = version_no ast + 1 else st' = ast)"
  proof (intro allI impI)
    fix msgs st'
    assume "report_approval_step m finish topic_str ast ev = (msgs, Continue st')"
    from report_approval_step_Continue [OF this]
    show "report_versions (workflow st') = report_versions (workflow ast)
          \<and> (if rewrite_decision ev then version_no st' = version_no ast + 1 else st' = ast)"
      by (simp split: if_splits)
  qed
  show "\<forall>response.
        wait_for_response ev = Inr response \<longrightarrow>
          (dict_get response ''action'' JNull = JStr ''approve'' \<longrightarrow>
             report_approval_step m finish topic_str ast ev
               = ([Progress ReportApproved], Return (current_report ast)))
          \<and> (dict_get response ''action'' JNull = JStr ''view_full'' \<longrightarrow>
               report_approval_step m finish topic_str ast ev = ([], Continue ast))"
    by (simp add: report_approval_step_approve report_approval_step_view_full)
  show "\<forall>st'.
        snd (get_report_approval m finish topic_str parts evs w) = Presenting st' \<longrightarrow>
          version_no st' = 1 + length (filter rewrite_decision evs)
          \<and> report_versions (workflow st') = report_versions w"
  proof (intro allI impI)
    fix st'
    assume "snd (get_report_approval m finish topic_str parts evs w) = Presenting st'"
    then show "version_no st' = 1 + length (filter rewrite_decision evs)
          \<and> report_versions (workflow st') = report_versions w"
      by (rule get_report_approval_Presenting)
  qed
  show "\<forall>r w' rest'.
        snd (get_report_approval m finish topic_str parts evs w) = Approved r w' rest' \<longrightarrow>
          (\<exists>pre ev' st'. evs = pre @ ev' # rest'
             \<and> snd (get_report_approval m finish topic_str parts pre w) = Presenting st'
             \<and> r = current_report st' \<and> report_versions w' = report_versions w)"
  proof (intro allI impI)
    fix r w' rest'
    assume "snd (get_report_approval m finish topic_str parts evs w) = Approved r w' rest'"
    then show "\<exists>pre ev' st'. evs = pre @ ev' # rest'
             \<and> snd (get_report_approval m finish topic_str parts pre w) = Presenting st'
             \<and> r = current_report st' \<and> report_versions w' = report_versions w"
      by (rule get_report_approval_Approved)
  qed
qed

text \<open>
  Claim C7 as stated fails in the backend: after one rewrite the loop presents version 2
  while the stored history is empty, and it is still empty when that version is approved.
\<close>

theorem web_loop_keeps_no_history:
  "(case snd (get_report_approval (scripted_llm []) id ''X'' draft_1
                [reply_rewrite ''complete''] init_workflow) of
      Presenting st \<Rightarrow> version_no st = 2 \<and> length (report_versions (workflow st)) = 0
    | _ \<Rightarrow> False)
   \<and> (case snd (get_report_approval (scripted_llm []) id ''X'' draft_1
                   [reply_rewrite ''complete'', reply_approve] init_workflow) of
        Approved r w rest \<Rightarrow> length (report_versions w) = 0
      | _ \<Rightarrow> False)"
  by code_simp

text \<open>
  The theorem of claim C7 at work: three rewrites and a look at the full report, then an
  approval, leave a history of length 4 on the console and return its last entry; the
  same decisions in the backend lead to the presentation of version 4.
\<close>

theorem approval_loop_versions_witness:
  "(\<exists>r w' rest.
      snd (get_final_report_approval (scripted_llm []) id ''X'' draft_1
             console_three_rewrites init_workflow) = Reviewed r w' rest
      \<and> length (report_versions w') = 4
      \<and> r = last (report_versions w'))
   \<and> (\<exists>st'.
        snd (get_report_approval (scripted_llm []) id ''X'' draft_1
               web_three_rewrites init_workflow) = Presenting st'
        \<and> version_no st' = 4)"
proof -
  have "case snd (get_final_report_approval (scripted_llm []) id ''X'' draft_1
                    console_three_rewrites init_workflow) of
          Reviewed r w' rest \<Rightarrow> length (report_versions w') = 4
        | _ \<Rightarrow> False"
    by code_simp
  then obtain r w' rest where
    e: "snd (get_final_report_approval (scripted_llm []) id ''X'' draft_1
               console_three_rewrites init_workflow) = Reviewed r w' rest"
    and l: "length (report_versions w') = 4"
    by (auto split: review_end.splits)
  have "case snd (get_report_approval (scripted_llm []) id ''X'' draft_1
                    web_three_rewrites init_workflow) of
          Presenting st' \<Rightarrow> True
        | _ \<Rightarrow> False"
    by code_simp
  then obtain st' where
    p: "snd (get_report_approval (scripted_llm []) id ''X'' draft_1
               web_three_rewrites init_workflow) = Presenting st'"
    by (auto split: approval_end.splits)
  have n: "length (filter rewrite_decision web_three_rewrites) = 3"
    by code_simp
  note t = approval_loop_versions
    [where m = "scripted_llm []" and finish = id and topic_str = "''X''" and parts = draft_1
       and inp = console_three_rewrites and w = init_workflow and evs = web_three_rewrites
       and st = review_start and ast = approval_start and ev = reply_approve
       and rest = "[]" and line = "[]"]
  from t e have "r = last (report_versions w')"
    by (simp add: split_beta)
  moreover from t p n have "version_no st' = 4"
    by simp
  ultimately show ?thesis using e l p by blast
qed

text \<open>
  Claim C8, as the code has it. A choice the console menu does not offer leaves the
  dialogue where it is and prints a message that names the valid choices. A reply whose
  action is none of \<^verbatim>\<open>approve\<close>, \<^verbatim>\<open>rewrite\<close>, \<^verbatim>\<open>view_full\<close> leaves the loop of the
  backend in the same state without any message (the loop then presents the same version
  again). Neither ends the workflow. A rewrite with a sub-choice the console does not
  offer is reported as a wrong choice and then carried out as a rewrite from the current
  interviews: it produces the next version.
\<close>

theorem unrecognized_decisions:
  "(choice \<noteq> ''1'' \<and> choice \<noteq> ''2'' \<and> choice \<noteq> ''3''
      \<and> \<not> (choice = ''4'' \<and> length (report_versions (self st)) > 1) \<longrightarrow>
      review_iteration m finish topic_str st (choice # rest) =
        ([Menu (if length (report_versions (self st)) > 1 then 4 else 3),
          InvalidChoice (if length (report_versions (self st)) > 1 then 4 else 3)],
         Again st rest))
   \<and> (\<forall>response.
        wait_for_response ev = Inr response
        \<and> dict_get response ''action'' JNull \<noteq> JStr ''approve''
        \<and> dict_get response ''action'' JNull \<noteq> JStr ''rewrite''
        \<and> dict_get response ''action'' JNull \<noteq> JStr ''view_full'' \<longrightarrow>
          report_approval_step m finish topic_str ast ev = ([], Continue ast))
   \<and> (rewrite_choice \<noteq> ''1'' \<and> rewrite_choice \<noteq> ''2'' \<longrightarrow>
        review_iteration m finish topic_str st (''2'' # rewrite_choice # rest) =
          (case write_report m topic_str (current_interviews (self st)) of
             Inl e \<Rightarrow>
               ([Menu (if length (report_versions (self st)) > 1 then 4 else 3),
                 RewriteMenu, InvalidRewriteChoice], Abort e)
           | Inr new_report_parts \<Rightarrow>
               ([Menu (if length (report_versions (self st)) > 1 then 4 else 3),
                 RewriteMenu, InvalidRewriteChoice,
                 Rewritten (Suc (length (report_versions (self st))))],
                Again \<lparr>self = (self st)
                         \<lparr>report_versions := report_versions (self st) @ [new_report_parts],
                          current_report_parts := new_report_parts\<rparr>,
                       report_parts = new_report_parts\<rparr> rest)))"
proof (intro conjI allI impI)
  assume "choice \<noteq> ''1'' \<and> choice \<noteq> ''2'' \<and> choice \<noteq> ''3''
      \<and> \<not> (choice = ''4'' \<and> length (report_versions (self st)) > 1)"
  then show "review_iteration m finish topic_str st (choice # rest) =
        ([Menu (if length (report_versions (self st)) > 1 then 4 else 3),
          InvalidChoice (if length (report_versions (self st)) > 1 then 4 else 3)],
         Again st rest)"
    by (auto simp: review_iteration_def Let_def)
next
  fix response
  assume "wait_for_response ev = Inr response
        \<and> dict_get response ''action'' JNull \<noteq> JStr ''approve''
        \<and> dict_get response ''action'' JNull \<noteq> JStr ''rewrite''
        \<and> dict_get response ''action'' JNull \<noteq> JStr ''view_full''"
  then show "report_approval_step m finish topic_str ast ev = ([], Continue ast)"
    by (simp add: report_approval_step_def)
next
  assume "rewrite_choice \<noteq> ''1'' \<and> rewrite_choice \<noteq> ''2''"
  then show "review_iteration m finish topic_str st (''2'' # rewrite_choice # rest) =
          (case write_report m topic_str (current_interviews (self st)) of
             Inl e \<Rightarrow>
               ([Menu (if length (report_versions (self st)) > 1 then 4 else 3),
                 RewriteMenu, InvalidRewriteChoice], Abort e)
           | Inr new_report_parts \<Rightarrow>
               ([Menu (if length (report_versions (self st)) > 1 then 4 else 3),
                 RewriteMenu, InvalidRewriteChoice,
                 Rewritten (Suc (length (report_versions (self st))))],
                Again \<lparr>self = (self st)
                         \<lparr>report_versions := report_versions (self st) @ [new_report_parts],
                          current_report_parts := new_report_parts\<rparr>,
                       report_parts = new_report_parts\<rparr> rest))"
    by (simp add: review_iteration_def rewrite_branch_def append_version_def Let_def
        split: sum.splits)
qed

text \<open>
  The theorem of claim C8 at work at the start of a review of \<open>draft_1\<close>: the choice
  \<open>9\<close>, the action \<open>publish\<close>, and the rewrite sub-choice \<open>9\<close>.
\<close>

theorem unrecognized_decisions_witness:
  "review_iteration (scripted_llm []) id ''X'' review_start [''9'']
     = ([Menu 3, InvalidChoice 3], Again review_start [])
   \<and> report_approval_step (scripted_llm []) id ''X'' approval_start reply_publish
     = ([], Continue approval_start)
   \<and> (\<exists>st'. review_iteration (scripted_llm []) id ''X'' review_start [''2'', ''9'']
              = ([Menu 3, RewriteMenu, InvalidRewriteChoice, Rewritten 2], Again st' [])
            \<and> length (report_versions (self st')) = 2)"
proof -
  have c: "''9'' \<noteq> ''1'' \<and> ''9'' \<noteq> ''2'' \<and> ''9'' \<noteq> ''3''
      \<and> \<not> (''9'' = ''4'' \<and> length (report_versions (self review_start)) > 1)"
    by simp
  have v: "length (report_versions (self review_start)) = 1"
    by (simp add: review_start_def init_workflow_def)
  have a: "wait_for_response reply_publish = Inr [(''action'', JStr ''publish'')]
      \<and> dict_get [(''action'', JStr ''publish'')] ''action'' JNull \<noteq> JStr ''approve''
      \<and> dict_get [(''action'', JStr ''publish'')] ''action'' JNull \<noteq> JStr ''rewrite''
      \<and> dict_get [(''action'', JStr ''publish'')] ''action'' JNull \<noteq> JStr ''view_full''"
    by (simp add: reply_publish_def response_timeout_def dict_get_def)
  have k: "''9'' \<noteq> ''1'' \<and> ''9'' \<noteq> ''2''" by simp
  have w: "write_report (scripted_llm []) ''X'' (current_interviews (self review_start))
             = Inr [(''main_content'', ''M:''), (''introduction'', ''I''), (''conclusion'', ''C'')]"
    by (simp add: write_report_def scripted_llm_def review_start_def init_workflow_def)
  note t = unrecognized_decisions
    [where choice = "''9''" and st = review_start and m = "scripted_llm []" and finish = id
       and topic_str = "''X''" and rest = "[]" and ev = reply_publish and ast = approval_start
       and rewrite_choice = "''9''"]
  from t c v have 1: "review_iteration (scripted_llm []) id ''X'' review_start [''9'']
     = ([Menu 3, InvalidChoice 3], Again review_start [])"
    by simp
  from t a have 2: "report_approval_step (scripted_llm []) id ''X'' approval_start reply_publish
     = ([], Continue approval_start)"
    by blast
  from t k v w have 3: "\<exists>st'. review_iteration (scripted_llm []) id ''X'' review_start [''2'', ''9'']
              = ([Menu 3, RewriteMenu, InvalidRewriteChoice, Rewritten 2], Again st' [])
            \<and> length (report_versions (self st')) = 2"
    by simp
  from 1 2 3 show ?thesis by blast
qed

text \<open>
  Claim C8 as stated fails. On the console a rewrite with the unrecognized sub-choice
  \<open>9\<close> takes the dialogue from version 1 to version 2; and in the backend the
  unrecognized action \<open>publish\<close> is answered by the same approval request again and
  nothing else, so no explanatory event is sent.
\<close>

theorem unrecognized_rewrite_choice_makes_version:
  "(case snd (get_final_report_approval (scripted_llm []) id ''X'' draft_1 [''2'', ''9'']
                init_workflow) of
      AwaitingInput st \<Rightarrow> length (report_versions (self st)) = 2
    | _ \<Rightarrow> False)
   \<and> fst (get_final_report_approval (scripted_llm []) id ''X'' draft_1 [''2'', ''9'']
            init_workflow)
     = [ReviewHeader 1 draft_1, Menu 3, RewriteMenu, InvalidRewriteChoice, Rewritten 2, Menu 4]
   \<and> get_report_approval (scripted_llm []) id ''X'' draft_1 [reply_publish] init_workflow
     = ([approval_request ''X'' approval_start, approval_request ''X'' approval_start],
        Presenting approval_start)"
  by code_simp

end
